theory Spec2Isabelle
  imports Complex_Main "HOL-Library.Multiset" "HOL-Library.Product_Lexorder"
begin

section \<open>JavaScript values\<close>

text \<open>
  A JavaScript number is NaN, an infinity or a finite value.  The code only compares
  numbers with the constants 0, -90, 90, -180 and 180 and never computes with them, so a
  finite double is taken as the real number it denotes (negative zero is zero: both are
  falsy and both compare alike).
\<close>

datatype number = NaN | Finite real | PosInfinity | NegInfinity

text \<open>The global \<open>isNaN\<close> on a number.\<close>

definition isNaN :: "number \<Rightarrow> bool" where
  "isNaN n = (n = NaN)"

text \<open>\<open>a <= b\<close> on numbers: false as soon as one side is NaN.\<close>

fun num_le :: "number \<Rightarrow> number \<Rightarrow> bool" where
  "num_le NaN _ = False"
| "num_le _ NaN = False"
| "num_le NegInfinity _ = True"
| "num_le _ PosInfinity = True"
| "num_le (Finite x) (Finite y) = (x \<le> y)"
| "num_le _ _ = False"

text \<open>\<open>a >= b\<close> is \<open>b <= a\<close> on numbers (both are false on NaN).\<close>

definition num_ge :: "number \<Rightarrow> number \<Rightarrow> bool" where
  "num_ge a b = num_le b a"

text \<open>
  The values a property of the request payload can hold: \<open>undefined\<close> (the property is
  absent), \<open>null\<close>, a number or a string.
\<close>

datatype jsval = JSUndefined | JSNull | JSNumber number | JSString string

text \<open>Truthiness (ToBoolean): \<open>undefined\<close>, \<open>null\<close>, NaN, 0 and the empty string are falsy.\<close>

fun truthy :: "jsval \<Rightarrow> bool" where
  "truthy JSUndefined = False"
| "truthy JSNull = False"
| "truthy (JSNumber NaN) = False"
| "truthy (JSNumber (Finite x)) = (x \<noteq> 0)"
| "truthy (JSNumber PosInfinity) = True"
| "truthy (JSNumber NegInfinity) = True"
| "truthy (JSString s) = (s \<noteq> [])"

text \<open>\<open>a || b\<close>: the left operand when it is truthy, the right one otherwise.\<close>

definition js_or :: "jsval \<Rightarrow> jsval \<Rightarrow> jsval" where
  "js_or a c = (if truthy a then a else c)"

text \<open>
  The built-in conversions between strings and numbers are not part of the repository;
  the functions that call them take them as a parameter.
\<close>

record builtins =
  parseFloat :: "string \<Rightarrow> number"
  StringToNumber :: "string \<Rightarrow> number"
  NumberToString :: "number \<Rightarrow> string"

text \<open>ToNumber and ToString, as the comparison operators, \<open>isNaN\<close> and \<open>RegExp.test\<close> apply them.\<close>

fun ToNumber :: "builtins \<Rightarrow> jsval \<Rightarrow> number" where
  "ToNumber b JSUndefined = NaN"
| "ToNumber b JSNull = Finite 0"
| "ToNumber b (JSNumber n) = n"
| "ToNumber b (JSString s) = StringToNumber b s"

fun ToString :: "builtins \<Rightarrow> jsval \<Rightarrow> string" where
  "ToString b JSUndefined = ''undefined''"
| "ToString b JSNull = ''null''"
| "ToString b (JSNumber n) = NumberToString b n"
| "ToString b (JSString s) = s"

text \<open>
  \<open>v.length < n\<close> for a truthy \<open>v\<close>: the length of a string; a number has no
  \<open>length\<close>, and \<open>undefined < n\<close> is false.  (On \<open>undefined\<close> and \<open>null\<close> the
  property access would throw; the code only reaches it behind a truthiness test.)
\<close>

fun length_lt :: "jsval \<Rightarrow> nat \<Rightarrow> bool" where
  "length_lt (JSString s) n = (length s < n)"
| "length_lt _ n = False"

text \<open>
  White space and line terminators, as \<open>String.prototype.trim\<close> and the class \<open>\s\<close> of a
  regular expression see them, among the characters a \<open>char\<close> can hold: tab, line feed,
  vertical tab, form feed, carriage return, space and no-break space.
\<close>

definition isWhiteSpace :: "char \<Rightarrow> bool" where
  "isWhiteSpace c = (c \<in> set [CHR 0x09, CHR 0x0A, CHR 0x0B, CHR 0x0C, CHR 0x0D, CHR 0x20, CHR 0xA0])"

definition trim :: "string \<Rightarrow> string" where
  "trim s = rev (dropWhile isWhiteSpace (rev (dropWhile isWhiteSpace s)))"

text \<open>\<open>String.prototype.toLowerCase\<close> on the ASCII letters.\<close>

definition lowerChar :: "char \<Rightarrow> char" where
  "lowerChar c =
     (case map_of (zip ''ABCDEFGHIJKLMNOPQRSTUVWXYZ'' ''abcdefghijklmnopqrstuvwxyz'') c of
        Some l \<Rightarrow> l
      | None \<Rightarrow> c)"

definition toLowerCase :: "string \<Rightarrow> string" where
  "toLowerCase s = map lowerChar s"

text \<open>Reading a property of an object: \<open>undefined\<close> when the object has no such key.\<close>

definition getProp :: "(string \<rightharpoonup> jsval) \<Rightarrow> string \<Rightarrow> jsval" where
  "getProp obj k = (case obj k of None \<Rightarrow> JSUndefined | Some v \<Rightarrow> v)"

section \<open>The submission form (main.js)\<close>

text \<open>
  \<open>isValidEmail\<close>: the expression \<open>/^[^\s@]+@[^\s@]+\.[^\s@]+$/\<close>.  The first part cannot
  hold an at sign, so it is the text before the first one; what follows it must be free of
  white space and at signs and hold a dot that is neither its first nor its last
  character.
\<close>

definition isValidEmail :: "string \<Rightarrow> bool" where
  "isValidEmail email =
     (let local = takeWhile (\<lambda>c. c \<noteq> CHR ''@'') email;
          rest = dropWhile (\<lambda>c. c \<noteq> CHR ''@'') email
      in local \<noteq> [] \<and> list_all (\<lambda>c. \<not> isWhiteSpace c) local \<and> rest \<noteq> [] \<and>
         list_all (\<lambda>c. \<not> isWhiteSpace c \<and> c \<noteq> CHR ''@'') (tl rest) \<and>
         CHR ''.'' \<in> set (butlast (tl (tl rest))))"

text \<open>
  \<open>isValidPhoneNumber\<close>: the expression \<open>/^[+]?[0-9-\s()]{10,20}$/\<close>.  A plus sign is not
  in the class, so a leading one is always the optional prefix.
\<close>

definition phoneChar :: "char \<Rightarrow> bool" where
  "phoneChar c = (c \<in> set ''0123456789'' \<or> c = CHR ''-'' \<or> isWhiteSpace c \<or>
                  c = CHR ''('' \<or> c = CHR '')'')"

definition isValidPhoneNumber :: "string \<Rightarrow> bool" where
  "isValidPhoneNumber phone =
     (let digits = (case phone of c # cs \<Rightarrow> if c = CHR ''+'' then cs else phone | [] \<Rightarrow> phone)
      in 10 \<le> length digits \<and> length digits \<le> 20 \<and> list_all phoneChar digits)"

definition isValidLatitude :: "builtins \<Rightarrow> jsval \<Rightarrow> bool" where
  "isValidLatitude b lat =
     (\<not> isNaN (ToNumber b lat) \<and> num_ge (ToNumber b lat) (Finite (- 90)) \<and>
      num_le (ToNumber b lat) (Finite 90))"

definition isValidLongitude :: "builtins \<Rightarrow> jsval \<Rightarrow> bool" where
  "isValidLongitude b lng =
     (\<not> isNaN (ToNumber b lng) \<and> num_ge (ToNumber b lng) (Finite (- 180)) \<and>
      num_le (ToNumber b lng) (Finite 180))"

text \<open>\<open>validateRequestData\<close>: the error messages, in the order the checks push them.\<close>

definition validateRequestData :: "builtins \<Rightarrow> (string \<rightharpoonup> jsval) \<Rightarrow> string list" where
  "validateRequestData b data =
     (if \<not> truthy (getProp data ''title'') \<or> length_lt (getProp data ''title'') 5
      then [''Title must be at least 5 characters long''] else []) @
     (if \<not> truthy (getProp data ''description'') \<or> length_lt (getProp data ''description'') 10
      then [''Description must be at least 10 characters long''] else []) @
     (if \<not> truthy (getProp data ''request_type'')
      then [''Request type is required''] else []) @
     (if \<not> truthy (getProp data ''contact_name'') \<or> length_lt (getProp data ''contact_name'') 2
      then [''Contact name is required''] else []) @
     (if \<not> truthy (getProp data ''contact_phone'') \<or>
         \<not> isValidPhoneNumber (ToString b (getProp data ''contact_phone''))
      then [''Valid phone number is required''] else []) @
     (if truthy (getProp data ''contact_email'') \<and>
         \<not> isValidEmail (ToString b (getProp data ''contact_email''))
      then [''Email address is invalid''] else []) @
     (if \<not> truthy (getProp data ''address'') \<or> length_lt (getProp data ''address'') 10
      then [''Detailed address is required''] else []) @
     (if \<not> truthy (getProp data ''latitude'') \<or> \<not> isValidLatitude b (getProp data ''latitude'')
      then [''Valid latitude is required''] else []) @
     (if \<not> truthy (getProp data ''longitude'') \<or> \<not> isValidLongitude b (getProp data ''longitude'')
      then [''Valid longitude is required''] else [])"

text \<open>
  The loop of \<open>handleFormSubmission\<close> over the entries of the form, in their order: an
  entry that is blank after trimming is skipped; the four numeric keys store
  \<open>parseFloat(value) || (key === 'people_affected' ? 1 : null)\<close>, every other key the
  trimmed text.
\<close>

definition numericKeys :: "string list" where
  "numericKeys = [''latitude'', ''longitude'', ''people_affected'', ''estimated_cost'']"

definition coerceNumeric :: "builtins \<Rightarrow> string \<Rightarrow> string \<Rightarrow> jsval" where
  "coerceNumeric b key val =
     js_or (JSNumber (parseFloat b val))
           (if key = ''people_affected'' then JSNumber (Finite 1) else JSNull)"

fun buildRequestData ::
  "builtins \<Rightarrow> (string \<times> string) list \<Rightarrow> (string \<rightharpoonup> jsval) \<Rightarrow> (string \<rightharpoonup> jsval)" where
  "buildRequestData b [] requestData = requestData"
| "buildRequestData b ((key, val) # entries) requestData =
     buildRequestData b entries
       (if trim val \<noteq> []
        then (if key \<in> set numericKeys
              then requestData(key \<mapsto> coerceNumeric b key val)
              else requestData(key \<mapsto> JSString (trim val)))
        else requestData)"

text \<open>
  \<open>handleFormSubmission\<close> up to the request it sends: the validation errors it shows
  (\<open>Inl\<close>, nothing is sent) or the payload it posts to \<open>/api/requests\<close> (\<open>Inr\<close>).
\<close>

definition handleFormSubmission ::
  "builtins \<Rightarrow> (string \<times> string) list \<Rightarrow> string list + (string \<rightharpoonup> jsval)" where
  "handleFormSubmission b formData =
     (let requestData = buildRequestData b formData Map.empty;
          validationErrors = validateRequestData b requestData
      in if length validationErrors > 0 then Inl validationErrors else Inr requestData)"

section \<open>Relief requests as the pages receive them\<close>

text \<open>
  The record the listing endpoint returns for a request.  The enumerations arrive as
  strings, and the pages compare them as strings.
\<close>

record request =
  request_id :: nat
  title :: string
  description :: string
  request_type :: string
  urgency_level :: string
  status :: string
  contact_name :: string
  contact_phone :: string
  contact_email :: "string option"
  address :: string
  landmark :: "string option"
  latitude :: real
  longitude :: real
  people_affected :: nat
  estimated_cost :: "real option"
  additional_notes :: "string option"
  assigned_to :: "string option"
  assigned_contact :: "string option"
  created_at :: nat
  updated_at :: nat

text \<open>
  The values of the three enumerations, as the colour tables of the dashboard
  (\<open>getTypeColor\<close>, \<open>getUrgencyColor\<close>, \<open>getStatusColor\<close>) list them.
\<close>

definition request_types :: "string list" where
  "request_types = [''RESCUE'', ''MEDICAL'', ''FOOD'', ''WATER'', ''SHELTER'', ''CLOTHING'',
                    ''TRANSPORTATION'', ''OTHER'']"

definition urgency_levels :: "string list" where
  "urgency_levels = [''LOW'', ''MEDIUM'', ''HIGH'', ''CRITICAL'']"

definition statuses :: "string list" where
  "statuses = [''pending'', ''in_progress'', ''completed'']"

text \<open>
  The body of a listing response, each field possibly missing, and the outcome of a
  \<open>fetch\<close> of it: the call throws, or a response arrives with its \<open>ok\<close> flag and a body
  that \<open>response.json()\<close> parses (\<open>None\<close>: parsing throws).
\<close>

record listing_data =
  data_requests :: "request list option"
  data_total :: "nat option"
  data_total_pages :: "nat option"

datatype fetch_result = FetchThrows | Response bool "listing_data option"

text \<open>The buttons a card or a popup renders, with the arguments of their handlers.\<close>

datatype action = ViewDetails nat | Assign nat | MarkComplete nat | Directions real real

text \<open>The messages the pages show (\<open>showMessage\<close>), with their type.\<close>

datatype message = FiltersApplied nat | FiltersCleared | LoadFailed

section \<open>The map page (map.js)\<close>

text \<open>
  \<open>createPopupContent\<close>, reduced to the buttons of the popup: the details and directions
  buttons always, the assign button when \<open>request.status === 'pending'\<close>.  The map offers
  no button that completes a request.
\<close>

definition createPopupContent :: "request \<Rightarrow> action list" where
  "createPopupContent request =
     [ViewDetails (request_id request)] @
     (if status request = ''pending'' then [Assign (request_id request)] else []) @
     [Directions (latitude request) (longitude request)]"

text \<open>
  \<open>getUrgencyColor\<close> of the map: \<open>colors[urgency] || colors.medium\<close>, on the keys the
  object literal defines.
\<close>

definition getUrgencyColor :: "string \<Rightarrow> string" where
  "getUrgencyColor urgency =
     (case map_of [(''critical'', ''#c0392b''), (''high'', ''#ff6b6b''),
                   (''medium'', ''#f39c12''), (''low'', ''#3498db'')] urgency of
        Some c \<Rightarrow> c
      | None \<Rightarrow> ''#f39c12'')"

text \<open>
  A marker: its position, the type and colour its icon is made from, its popup, and the
  request it keeps a reference to (\<open>marker.requestData = request\<close>).
\<close>

record marker =
  marker_position :: "real \<times> real"
  marker_icon :: "string \<times> string"
  marker_popup :: "action list"
  requestData :: request

definition createRequestMarker :: "request \<Rightarrow> marker" where
  "createRequestMarker request =
     \<lparr>marker_position = (latitude request, longitude request),
      marker_icon = (request_type request, getUrgencyColor (urgency_level request)),
      marker_popup = createPopupContent request,
      requestData = request\<rparr>"

text \<open>
  The state of \<open>DisasterReliefMap\<close>: its fields, and the parts of the document it reads
  and writes (the three filter selects, the three statistics, the messages shown).
\<close>

record map_state =
  markers :: "marker list"
  currentFilters :: "string \<rightharpoonup> string"
  allRequests :: "request list"
  filteredRequests :: "request list"
  typeFilter :: string
  urgencyFilter :: string
  statusFilter :: string
  totalRequests :: nat
  visibleRequests :: nat
  urgentRequests :: nat
  messages :: "(message \<times> string) list"

definition updateMapMarkers :: "map_state \<Rightarrow> map_state" where
  "updateMapMarkers s =
     s\<lparr>markers := map createRequestMarker (filteredRequests s),
       visibleRequests := length (filteredRequests s)\<rparr>"

definition updateStatistics :: "map_state \<Rightarrow> map_state" where
  "updateStatistics s =
     s\<lparr>totalRequests := length (allRequests s),
       visibleRequests := length (filteredRequests s),
       urgentRequests :=
         length (filter (\<lambda>req. urgency_level req = ''critical'' \<or> urgency_level req = ''high'')
                   (filteredRequests s))\<rparr>"

definition showMessage :: "message \<Rightarrow> string \<Rightarrow> map_state \<Rightarrow> map_state" where
  "showMessage m type s = s\<lparr>messages := messages s @ [(m, type)]\<rparr>"

text \<open>
  \<open>applyFilters\<close>: a select's value is a string, and the empty string is falsy, so
  \<open>!filters.f || request.f === filters.f\<close> holds when the select is empty or equals the
  request's field.
\<close>

definition applyFilters :: "map_state \<Rightarrow> map_state" where
  "applyFilters s =
     (let f_type = typeFilter s; f_urgency = urgencyFilter s; f_status = statusFilter s;
          filters = [''request_type'' \<mapsto> f_type, ''urgency_level'' \<mapsto> f_urgency,
                     ''status'' \<mapsto> f_status];
          s1 = s\<lparr>currentFilters := filters\<rparr>;
          s2 = s1\<lparr>filteredRequests :=
                 filter (\<lambda>request.
                     (f_type = [] \<or> request_type request = f_type) \<and>
                     (f_urgency = [] \<or> urgency_level request = f_urgency) \<and>
                     (f_status = [] \<or> status request = f_status))
                   (allRequests s1)\<rparr>;
          s3 = updateStatistics (updateMapMarkers s2)
      in showMessage (FiltersApplied (length (filteredRequests s3))) ''info'' s3)"

definition clearFilters :: "map_state \<Rightarrow> map_state" where
  "clearFilters s =
     (let s1 = s\<lparr>typeFilter := [], urgencyFilter := [], statusFilter := []\<rparr>;
          s2 = s1\<lparr>currentFilters := Map.empty\<rparr>;
          s3 = s2\<lparr>filteredRequests := allRequests s2\<rparr>
      in showMessage FiltersCleared ''info'' (updateStatistics (updateMapMarkers s3)))"

text \<open>
  \<open>loadRequests\<close> of the map, given the outcome of its fetch: on success both lists are
  replaced (\<open>data.requests || []\<close>) and the markers and statistics rebuilt; on any failure
  only a message is shown.  The loading overlay and the bounds of the map view are not
  part of the state modelled.
\<close>

definition map_loadRequests :: "map_state \<Rightarrow> fetch_result \<Rightarrow> map_state" where
  "map_loadRequests s r =
     (case r of
        FetchThrows \<Rightarrow> showMessage LoadFailed ''error'' s
      | Response ok body \<Rightarrow>
          (if \<not> ok then showMessage LoadFailed ''error'' s
           else (case body of
                   None \<Rightarrow> showMessage LoadFailed ''error'' s
                 | Some data \<Rightarrow>
                     (let rs = (case data_requests data of None \<Rightarrow> [] | Some l \<Rightarrow> l)
                      in updateStatistics (updateMapMarkers
                           (s\<lparr>allRequests := rs, filteredRequests := rs\<rparr>))))))"

section \<open>The dashboard\<close>

text \<open>
  \<open>createRequestCard\<close>, reduced to the buttons of the card: the assign button when
  \<open>request.status.toLowerCase() === 'pending'\<close>, the complete button when it is
  \<open>'in_progress'\<close>.
\<close>

definition createRequestCard :: "request \<Rightarrow> action list" where
  "createRequestCard request =
     [ViewDetails (request_id request)] @
     (if toLowerCase (status request) = ''pending'' then [Assign (request_id request)] else []) @
     (if toLowerCase (status request) = ''in_progress''
      then [MarkComplete (request_id request)] else []) @
     [Directions (latitude request) (longitude request)]"

text \<open>What the element \<open>requestsList\<close> shows.\<close>

datatype list_view = EmptyState | Cards "action list list" | ErrorState

text \<open>
  The state of \<open>DisasterReliefDashboard\<close>: its fields, and the parts of the document it
  writes (the list, the pagination texts and buttons, the four counters, the message).
\<close>

record dashboard_state =
  requests :: "request list"
  currentPage :: nat
  pageSize :: nat
  totalPages :: nat
  dashFilters :: "string \<rightharpoonup> string"
  sortBy :: string
  sortOrder :: string
  requestsList :: list_view
  paginationInfo :: "nat \<times> nat"
  pageInfo :: "nat \<times> nat"
  prevDisabled :: bool
  nextDisabled :: bool
  pendingCount :: nat
  urgentCount :: nat
  progressCount :: nat
  completedCount :: nat
  dashMessage :: "(message \<times> string) option"

definition renderRequestsList :: "dashboard_state \<Rightarrow> dashboard_state" where
  "renderRequestsList s =
     (if length (requests s) = 0 then s\<lparr>requestsList := EmptyState\<rparr>
      else s\<lparr>requestsList := Cards (map createRequestCard (requests s))\<rparr>)"

definition updatePaginationInfo :: "listing_data \<Rightarrow> dashboard_state \<Rightarrow> dashboard_state" where
  "updatePaginationInfo data s =
     s\<lparr>paginationInfo :=
         (length (requests s), (case data_total data of None \<Rightarrow> 0 | Some t \<Rightarrow> t)),
       pageInfo := (currentPage s, totalPages s),
       prevDisabled := (currentPage s \<le> 1),
       nextDisabled := (currentPage s \<ge> totalPages s)\<rparr>"

definition calculateStatistics :: "dashboard_state \<Rightarrow> dashboard_state" where
  "calculateStatistics s =
     s\<lparr>pendingCount := length (filter (\<lambda>r. status r = ''pending'') (requests s)),
       urgentCount :=
         length (filter (\<lambda>r. urgency_level r = ''CRITICAL'' \<or> urgency_level r = ''HIGH'')
                   (requests s)),
       progressCount := length (filter (\<lambda>r. status r = ''in_progress'') (requests s)),
       completedCount := length (filter (\<lambda>r. status r = ''completed'') (requests s))\<rparr>"

definition renderErrorState :: "dashboard_state \<Rightarrow> dashboard_state" where
  "renderErrorState s = s\<lparr>requestsList := ErrorState\<rparr>"

text \<open>The \<open>catch\<close> block of \<open>loadRequests\<close>: a message, then the error state.\<close>

definition loadFailed :: "dashboard_state \<Rightarrow> dashboard_state" where
  "loadFailed s = renderErrorState (s\<lparr>dashMessage := Some (LoadFailed, ''error'')\<rparr>)"

text \<open>
  \<open>loadRequests\<close> of the dashboard, given the outcome of its fetch.  The two fields are
  assigned only after the response was read: \<open>data.requests || []\<close> and
  \<open>data.total_pages || 1\<close> (a missing or zero page count becomes 1).
\<close>

definition loadRequests :: "dashboard_state \<Rightarrow> fetch_result \<Rightarrow> dashboard_state" where
  "loadRequests s r =
     (case r of
        FetchThrows \<Rightarrow> loadFailed s
      | Response ok body \<Rightarrow>
          (if \<not> ok then loadFailed s
           else (case body of
                   None \<Rightarrow> loadFailed s
                 | Some data \<Rightarrow>
                     calculateStatistics (updatePaginationInfo data (renderRequestsList
                       (s\<lparr>requests := (case data_requests data of None \<Rightarrow> [] | Some l \<Rightarrow> l),
                          totalPages := (case data_total_pages data of
                                           None \<Rightarrow> 1
                                         | Some n \<Rightarrow> if n = 0 then 1 else n)\<rparr>))))))"

section \<open>The request service behind the pages\<close>

text \<open>
  The pages call a service (\<open>/api/requests\<close>) whose code is not among the sources.  Its
  three parts are modelled from the specification: the Request Store, the Duplicate/Spam
  Filter and the Query/Filter Engine.
\<close>

datatype reject_reason = DuplicateOf nat | RateLimitExceeded string

datatype error =
    ValidationError "string list"
  | DuplicateRejected reject_reason
  | NotFoundError nat
  | InvalidTransitionError string
  | TransientStoreError

text \<open>
  Modelled from the spec: the errors of the service, and the payload of the intake
  boundary (the attributes of a request but its identifier, status, assignment and
  timestamps).
\<close>

record payload =
  p_title :: string
  p_description :: string
  p_request_type :: string
  p_urgency_level :: string
  p_contact_name :: string
  p_contact_phone :: string
  p_contact_email :: "string option"
  p_address :: string
  p_landmark :: "string option"
  p_latitude :: real
  p_longitude :: real
  p_people_affected :: nat
  p_estimated_cost :: "real option"
  p_additional_notes :: "string option"

text \<open>
  Modelled from the spec: the validation of \<open>create\<close> (the service's schema is missing).
  It names the fields that are missing (an empty text) or out of range: the two
  enumerations, latitude in [-90, 90], longitude in [-180, 180], a positive number of
  people and a non-negative cost.  The required texts are those the specification's own
  scenario of a successful \<open>create\<close> supplies.
\<close>

definition validation_errors :: "payload \<Rightarrow> string list" where
  "validation_errors p =
     (if p_title p = [] then [''title''] else []) @
     (if p_description p = [] then [''description''] else []) @
     (if p_request_type p \<notin> set request_types then [''request_type''] else []) @
     (if p_urgency_level p \<notin> set urgency_levels then [''urgency_level''] else []) @
     (if p_contact_phone p = [] then [''contact_phone''] else []) @
     (if p_address p = [] then [''address''] else []) @
     (if p_latitude p < - 90 \<or> 90 < p_latitude p then [''latitude''] else []) @
     (if p_longitude p < - 180 \<or> 180 < p_longitude p then [''longitude''] else []) @
     (if p_people_affected p = 0 then [''people_affected''] else []) @
     (case p_estimated_cost p of
        None \<Rightarrow> []
      | Some c \<Rightarrow> if c < 0 then [''estimated_cost''] else [])"

subsection \<open>Request Store\<close>

record store =
  records :: "request list"
  next_id :: nat

text \<open>
  Modelled from the spec: the record \<open>create\<close> stores for a payload (the service's code is
  missing): the payload's attributes, the identifier, the status pending, no assignee,
  and both timestamps at now.
\<close>

definition new_request :: "nat \<Rightarrow> nat \<Rightarrow> payload \<Rightarrow> request" where
  "new_request i now p =
     \<lparr>request_id = i, title = p_title p, description = p_description p,
      request_type = p_request_type p, urgency_level = p_urgency_level p,
      status = ''pending'', contact_name = p_contact_name p,
      contact_phone = p_contact_phone p, contact_email = p_contact_email p,
      address = p_address p, landmark = p_landmark p, latitude = p_latitude p,
      longitude = p_longitude p, people_affected = p_people_affected p,
      estimated_cost = p_estimated_cost p, additional_notes = p_additional_notes p,
      assigned_to = None, assigned_contact = None, created_at = now, updated_at = now\<rparr>"

text \<open>
  Modelled from the spec: \<open>create\<close> of the Request Store (the service's code is missing).
  It assigns the identifier, sets the status to pending and both timestamps to now, and
  fails with a validation error on a payload with a missing or out-of-range field.
\<close>

definition create :: "nat \<Rightarrow> payload \<Rightarrow> store \<Rightarrow> error + (store \<times> request)" where
  "create now p st =
     (if validation_errors p \<noteq> [] then Inl (ValidationError (validation_errors p))
      else (let r = new_request (next_id st) now p
            in Inr (st\<lparr>records := records st @ [r], next_id := Suc (next_id st)\<rparr>, r)))"

text \<open>Modelled from the spec: \<open>get\<close> of the Request Store (the service's code is missing).\<close>

definition get :: "nat \<Rightarrow> store \<Rightarrow> error + request" where
  "get i st =
     (case find (\<lambda>r. request_id r = i) (records st) of
        None \<Rightarrow> Inl (NotFoundError i)
      | Some r \<Rightarrow> Inr r)"

text \<open>
  Modelled from the spec: the mutation of the stored request with an identifier (the
  service's code is missing); every other request stays as it is.
\<close>

definition update_record :: "nat \<Rightarrow> (request \<Rightarrow> request) \<Rightarrow> store \<Rightarrow> store" where
  "update_record i f st =
     st\<lparr>records := map (\<lambda>r. if request_id r = i then f r else r) (records st)\<rparr>"

text \<open>
  Modelled from the spec: \<open>assign\<close> of the Request Store (the service's code is missing).
  It fails when the identifier is unknown or the status is not pending; otherwise it sets
  the assignee, the status in_progress and the time of the update.
\<close>

definition assign :: "nat \<Rightarrow> string \<Rightarrow> string \<Rightarrow> nat \<Rightarrow> store \<Rightarrow> error + store" where
  "assign i assignee_name assignee_contact now st =
     (case get i st of
        Inl e \<Rightarrow> Inl e
      | Inr r \<Rightarrow>
          if status r \<noteq> ''pending'' then Inl (InvalidTransitionError (status r))
          else Inr (update_record i
                 (\<lambda>r. r\<lparr>assigned_to := Some assignee_name,
                         assigned_contact := Some assignee_contact,
                         status := ''in_progress'', updated_at := now\<rparr>) st))"

text \<open>
  Modelled from the spec: \<open>complete\<close> of the Request Store (the service's code is
  missing).  It fails when the identifier is unknown or the status is not in_progress;
  otherwise it sets the status completed and the time of the update.
\<close>

definition complete :: "nat \<Rightarrow> nat \<Rightarrow> store \<Rightarrow> error + store" where
  "complete i now st =
     (case get i st of
        Inl e \<Rightarrow> Inl e
      | Inr r \<Rightarrow>
          if status r \<noteq> ''in_progress'' then Inl (InvalidTransitionError (status r))
          else Inr (update_record i (\<lambda>r. r\<lparr>status := ''completed'', updated_at := now\<rparr>) st))"

text \<open>
  Modelled from the spec: the place of a status on the path pending, in_progress,
  completed of the data model's invariant.
\<close>

definition status_rank :: "string \<Rightarrow> nat" where
  "status_rank s =
     (if s = ''pending'' then 0 else if s = ''in_progress'' then 1
      else if s = ''completed'' then 2 else 3)"

text \<open>
  \<open>assignRequest\<close> and \<open>completeRequest\<close> of the dashboard, with the store in the place
  of the service their fetch calls.  The answers of the two prompts (empty when a dialog
  is cancelled) and of the confirmation are inputs: nothing is sent when a prompt is left
  empty or the confirmation declined.  The result is the store after the call, or the
  error of the response, on which the dashboard shows that the action failed.
\<close>

definition assignRequest :: "nat \<Rightarrow> string \<Rightarrow> string \<Rightarrow> nat \<Rightarrow> store \<Rightarrow> error + store" where
  "assignRequest requestId volunteerName volunteerContact now st =
     (if volunteerName = [] then Inr st
      else if volunteerContact = [] then Inr st
      else assign requestId volunteerName volunteerContact now st)"

definition completeRequest :: "nat \<Rightarrow> bool \<Rightarrow> nat \<Rightarrow> store \<Rightarrow> error + store" where
  "completeRequest requestId confirmed now st =
     (if \<not> confirmed then Inr st else complete requestId now st)"

text \<open>
  The click handler of a button of a dashboard card.  (The assign button of the map's
  popup only opens the dashboard in a new window.)
\<close>

fun perform :: "action \<Rightarrow> string \<Rightarrow> string \<Rightarrow> bool \<Rightarrow> nat \<Rightarrow> store \<Rightarrow> error + store" where
  "perform (Assign i) volunteerName volunteerContact confirmed now st =
     assignRequest i volunteerName volunteerContact now st"
| "perform (MarkComplete i) volunteerName volunteerContact confirmed now st =
     completeRequest i confirmed now st"
| "perform (ViewDetails i) volunteerName volunteerContact confirmed now st = Inr st"
| "perform (Directions lat lng) volunteerName volunteerContact confirmed now st = Inr st"

text \<open>
  Modelled from the spec: the mutations of the Request Store as operations, one step of
  the store on an operation, and a run of operations (the service's code is missing).  An
  operation that fails leaves the store as it was: the error goes to the caller.
\<close>

datatype operation = Create nat payload | AssignTo nat string string nat | Complete nat nat

fun step :: "operation \<Rightarrow> store \<Rightarrow> error + store" where
  "step (Create now p) st = (case create now p st of Inl e \<Rightarrow> Inl e | Inr (st', r) \<Rightarrow> Inr st')"
| "step (AssignTo i assignee_name assignee_contact now) st =
     assign i assignee_name assignee_contact now st"
| "step (Complete i now) st = complete i now st"

fun run :: "operation list \<Rightarrow> store \<Rightarrow> store" where
  "run [] st = st"
| "run (x # xs) st = run xs (case step x st of Inl e \<Rightarrow> st | Inr st' \<Rightarrow> st')"

text \<open>
  Modelled from the spec: identifiers are unique and assigned on creation.  In a
  well-formed store they are distinct and below the next identifier.
\<close>

definition store_wf :: "store \<Rightarrow> bool" where
  "store_wf st = (distinct (map request_id (records st)) \<and>
                  list_all (\<lambda>r. request_id r < next_id st) (records st))"

subsection \<open>Duplicate/Spam Filter\<close>

text \<open>
  Modelled from the spec: the policy of the filter (\<open>app/utils/filters.py\<close> is missing).
  The specification leaves its thresholds open.  They are the parameters of a policy: the
  length of the duplicate window, when two positions are near-identical, whatever else
  the policy counts as similar (the similarity of title and description), and how many
  requests one contact may have within the window.
\<close>

record policy =
  window :: nat
  near :: "real \<times> real \<Rightarrow> real \<times> real \<Rightarrow> bool"
  also_similar :: "payload \<Rightarrow> request \<Rightarrow> bool"
  rate_limit :: nat

datatype decision = Accept | Reject reject_reason

text \<open>
  Modelled from the spec: a stored request is of the duplicate window when it was created
  no longer ago than the window is long; it is similar to a candidate when it has the
  candidate's contact phone and a near-identical position, or by a further rule of the
  policy.
\<close>

definition within_window :: "policy \<Rightarrow> nat \<Rightarrow> request \<Rightarrow> bool" where
  "within_window pol now r = (now \<le> created_at r + window pol)"

definition is_duplicate :: "policy \<Rightarrow> payload \<Rightarrow> request \<Rightarrow> bool" where
  "is_duplicate pol cand r =
     ((contact_phone r = p_contact_phone cand \<and>
       near pol (latitude r, longitude r) (p_latitude cand, p_longitude cand)) \<or>
      also_similar pol cand r)"

text \<open>
  Modelled from the spec: the Duplicate/Spam Filter (\<open>app/utils/filters.py\<close> is missing).
  It compares the candidate with the stored requests of the window and rejects it as the
  duplicate of the first similar one, or when the requests of its contact within the
  window exceed the rate limit; it reads the history and changes nothing.
\<close>

definition duplicate_filter :: "policy \<Rightarrow> nat \<Rightarrow> request list \<Rightarrow> payload \<Rightarrow> decision" where
  "duplicate_filter pol now history cand =
     (let recent = filter (within_window pol now) history
      in case find (is_duplicate pol cand) recent of
           Some r \<Rightarrow> Reject (DuplicateOf (request_id r))
         | None \<Rightarrow>
             if rate_limit pol <
                length (filter (\<lambda>r. contact_phone r = p_contact_phone cand) recent)
             then Reject (RateLimitExceeded (p_contact_phone cand))
             else Accept)"

text \<open>
  Modelled from the spec: the intake boundary (the service's route is missing).  The
  payload is validated, then the filter decides, then the store creates the request.
\<close>

definition intake :: "policy \<Rightarrow> nat \<Rightarrow> payload \<Rightarrow> store \<Rightarrow> error + (store \<times> request)" where
  "intake pol now cand st =
     (if validation_errors cand \<noteq> [] then Inl (ValidationError (validation_errors cand))
      else (case duplicate_filter pol now (records st) cand of
              Reject reason \<Rightarrow> Inl (DuplicateRejected reason)
            | Accept \<Rightarrow> create now cand st))"

subsection \<open>Query/Filter Engine\<close>

text \<open>
  Modelled from the spec: the configuration of a query and its result (the service's code
  is missing), with the recognised options of section 4.3.
\<close>

datatype sort_field = CreatedAt | UrgencyLevel | Status

datatype sort_direction = Asc | Desc

record query_config =
  page :: nat
  page_size :: nat
  sort_by :: sort_field
  sort_order :: sort_direction
  filter_request_type :: "string option"
  filter_urgency_level :: "string option"
  filter_status :: "string option"

record query_result =
  res_requests :: "request list"
  res_total :: nat
  res_total_pages :: nat

text \<open>
  Modelled from the spec: the filters of a query.  An absent filter is no constraint; a
  given one must equal the request's field.
\<close>

definition matches :: "query_config \<Rightarrow> request \<Rightarrow> bool" where
  "matches cfg r =
     ((case filter_request_type cfg of None \<Rightarrow> True | Some t \<Rightarrow> request_type r = t) \<and>
      (case filter_urgency_level cfg of None \<Rightarrow> True | Some u \<Rightarrow> urgency_level r = u) \<and>
      (case filter_status cfg of None \<Rightarrow> True | Some s \<Rightarrow> status r = s))"

text \<open>
  Modelled from the spec: the value a request is sorted by.  The specification does not
  order the values of an enumeration; they are taken in the order it lists them.
\<close>

definition urgency_rank :: "string \<Rightarrow> nat" where
  "urgency_rank u =
     (if u = ''LOW'' then 0 else if u = ''MEDIUM'' then 1 else if u = ''HIGH'' then 2
      else if u = ''CRITICAL'' then 3 else 4)"

definition sort_value :: "sort_field \<Rightarrow> request \<Rightarrow> nat" where
  "sort_value f r =
     (case f of
        CreatedAt \<Rightarrow> created_at r
      | UrgencyLevel \<Rightarrow> urgency_rank (urgency_level r)
      | Status \<Rightarrow> status_rank (status r))"

text \<open>
  Modelled from the spec: the key of the sort, the chosen field, ascending or descending,
  then the identifier ascending (pairs are compared lexicographically); and the number
  of pages, the total over the page size, rounded up.
\<close>

definition ordering_key :: "query_config \<Rightarrow> request \<Rightarrow> int \<times> nat" where
  "ordering_key cfg r =
     ((case sort_order cfg of
         Asc \<Rightarrow> int (sort_value (sort_by cfg) r)
       | Desc \<Rightarrow> - int (sort_value (sort_by cfg) r)),
      request_id r)"

definition ceil_div :: "nat \<Rightarrow> nat \<Rightarrow> nat" where
  "ceil_div n d = (n + d - 1) div d"

text \<open>
  Modelled from the spec: the listing of the Query/Filter Engine (the service's code is
  missing).  Page and page size must be positive; the page size is capped at a maximum,
  which the specification leaves open and the model takes as a parameter.  The matching
  records are sorted, and the page is cut out of them.
\<close>

definition listing :: "nat \<Rightarrow> query_config \<Rightarrow> request list \<Rightarrow> error + query_result" where
  "listing max_page_size cfg rs =
     (if page cfg = 0 \<or> page_size cfg = 0
      then Inl (ValidationError
             ((if page cfg = 0 then [''page''] else []) @
              (if page_size cfg = 0 then [''page_size''] else [])))
      else (let size = min (page_size cfg) max_page_size;
                matching = sort_key (ordering_key cfg) (filter (matches cfg) rs)
            in Inr \<lparr>res_requests = take size (drop ((page cfg - 1) * size) matching),
                    res_total = length matching,
                    res_total_pages = ceil_div (length matching) size\<rparr>))"

section \<open>The claims in the specification's words\<close>

text \<open>
  A selection of a filter as the specification sees it: absent (the select is empty) or
  a value; a request meets three selections when it equals every one that is provided.
\<close>

definition selected :: "string \<Rightarrow> string option" where
  "selected v = (if v = [] then None else Some v)"

definition meets :: "string option \<Rightarrow> string option \<Rightarrow> string option \<Rightarrow> request \<Rightarrow> bool" where
  "meets t u st r =
     ((case t of None \<Rightarrow> True | Some v \<Rightarrow> request_type r = v) \<and>
      (case u of None \<Rightarrow> True | Some v \<Rightarrow> urgency_level r = v) \<and>
      (case st of None \<Rightarrow> True | Some v \<Rightarrow> status r = v))"

definition no_filters :: "query_config \<Rightarrow> bool" where
  "no_filters cfg = (filter_request_type cfg = None \<and> filter_urgency_level cfg = None \<and>
                     filter_status cfg = None)"

section \<open>Sample data\<close>

text \<open>Conversions that know the two texts of the sample form.\<close>

definition sample_builtins :: builtins where
  "sample_builtins =
     \<lparr>parseFloat = (\<lambda>s. if s = ''0'' then Finite 0
                        else if s = ''72.8'' then Finite (728 / 10) else NaN),
      StringToNumber = (\<lambda>s. NaN),
      NumberToString = (\<lambda>n. [])\<rparr>"

definition sample_form :: "(string \<times> string) list" where
  "sample_form =
     [(''title'', ''Need food''), (''description'', ''Family of 4 stranded''),
      (''request_type'', ''FOOD''), (''contact_name'', ''Asha''),
      (''contact_phone'', ''+91-9999999999''), (''address'', ''Near XYZ bridge, sector 5''),
      (''latitude'', ''0''), (''longitude'', ''72.8'')]"

definition sample_payload :: payload where
  "sample_payload =
     \<lparr>p_title = ''Need food'', p_description = ''Family of 4 stranded'',
      p_request_type = ''FOOD'', p_urgency_level = ''HIGH'', p_contact_name = [],
      p_contact_phone = ''+91-9999999999'', p_contact_email = None,
      p_address = ''Near XYZ bridge, sector 5'', p_landmark = None, p_latitude = 19,
      p_longitude = 728 / 10, p_people_affected = 4, p_estimated_cost = None,
      p_additional_notes = None\<rparr>"

definition sample_request :: "nat \<Rightarrow> string \<Rightarrow> string \<Rightarrow> request" where
  "sample_request i u st =
     \<lparr>request_id = i, title = ''Need food'', description = ''Family of 4 stranded'',
      request_type = ''FOOD'', urgency_level = u, status = st, contact_name = ''Asha'',
      contact_phone = ''+91-9999999999'', contact_email = None,
      address = ''Near XYZ bridge, sector 5'', landmark = None, latitude = 19,
      longitude = 728 / 10, people_affected = 4, estimated_cost = None,
      additional_notes = None, assigned_to = None, assigned_contact = None,
      created_at = 0, updated_at = 0\<rparr>"

definition sample_requests :: "request list" where
  "sample_requests =
     [sample_request 1 ''HIGH'' ''pending'', sample_request 2 ''LOW'' ''in_progress'',
      sample_request 3 ''CRITICAL'' ''completed'']"

definition sample_map :: map_state where
  "sample_map =
     \<lparr>markers = [], currentFilters = Map.empty, allRequests = sample_requests,
      filteredRequests = [], typeFilter = [], urgencyFilter = ''HIGH'', statusFilter = [],
      totalRequests = 0, visibleRequests = 0, urgentRequests = 0, messages = []\<rparr>"

definition sample_dashboard :: dashboard_state where
  "sample_dashboard =
     \<lparr>requests = sample_requests, currentPage = 2, pageSize = 10, totalPages = 3,
      dashFilters = Map.empty, sortBy = ''created_at'', sortOrder = ''desc'',
      requestsList = Cards (map createRequestCard sample_requests),
      paginationInfo = (3, 23), pageInfo = (2, 3), prevDisabled = False,
      nextDisabled = False, pendingCount = 1, urgentCount = 2, progressCount = 1,
      completedCount = 1, dashMessage = None\<rparr>"

definition sample_config :: query_config where
  "sample_config =
     \<lparr>page = 2, page_size = 10, sort_by = UrgencyLevel, sort_order = Desc,
      filter_request_type = None, filter_urgency_level = None, filter_status = None\<rparr>"

definition sample_store25 :: "request list" where
  "sample_store25 = map (\<lambda>i. sample_request i ''HIGH'' ''pending'') [0..<25]"

definition sample_listing :: listing_data where
  "sample_listing =
     \<lparr>data_requests = Some sample_requests, data_total = Some 3, data_total_pages = Some 1\<rparr>"

definition sample_ties :: "request list" where
  "sample_ties =
     [sample_request 5 ''HIGH'' ''pending'', sample_request 4 ''HIGH'' ''pending'',
      sample_request 6 ''LOW'' ''pending'']"

definition sample_policy :: policy where
  "sample_policy =
     \<lparr>window = 3600,
      near = (\<lambda>(a, b) (c, d). \<bar>a - c\<bar> \<le> 1 / 1000 \<and> \<bar>b - d\<bar> \<le> 1 / 1000),
      also_similar = (\<lambda>cand r. False),
      rate_limit = 5\<rparr>"

definition empty_store :: store where
  "empty_store = \<lparr>records = [], next_id = 1\<rparr>"

definition sample_store :: store where
  "sample_store = \<lparr>records = sample_requests, next_id = 4\<rparr>"

section \<open>Validation of the coordinates\<close>

lemma isValidLatitude_number:
  "isValidLatitude b (JSNumber n) \<longleftrightarrow> (\<exists>x. n = Finite x \<and> - 90 \<le> x \<and> x \<le> 90)"
  by (cases n) (auto simp: isValidLatitude_def isNaN_def num_ge_def)

lemma isValidLongitude_number:
  "isValidLongitude b (JSNumber n) \<longleftrightarrow> (\<exists>x. n = Finite x \<and> - 180 \<le> x \<and> x \<le> 180)"
  by (cases n) (auto simp: isValidLongitude_def isNaN_def num_ge_def)

lemma latitude_error_iff:
  "''Valid latitude is required'' \<in> set (validateRequestData b data) \<longleftrightarrow>
     \<not> truthy (getProp data ''latitude'') \<or> \<not> isValidLatitude b (getProp data ''latitude'')"
  by (simp add: validateRequestData_def)

lemma longitude_error_iff:
  "''Valid longitude is required'' \<in> set (validateRequestData b data) \<longleftrightarrow>
     \<not> truthy (getProp data ''longitude'') \<or> \<not> isValidLongitude b (getProp data ''longitude'')"
  by (simp add: validateRequestData_def)

text \<open>
  What \<open>validateRequestData\<close> accepts as a coordinate: a number of the range that is not
  0.  A coordinate that the range test refuses is reported, and the form is not sent.
\<close>

lemma latitude_accepted_iff:
  "''Valid latitude is required'' \<notin>
     set (validateRequestData b (data(''latitude'' \<mapsto> JSNumber n))) \<longleftrightarrow>
   (\<exists>x. n = Finite x \<and> x \<noteq> 0 \<and> - 90 \<le> x \<and> x \<le> 90)"
  by (cases n) (auto simp: latitude_error_iff getProp_def isValidLatitude_number)

lemma longitude_accepted_iff:
  "''Valid longitude is required'' \<notin>
     set (validateRequestData b (data(''longitude'' \<mapsto> JSNumber n))) \<longleftrightarrow>
   (\<exists>x. n = Finite x \<and> x \<noteq> 0 \<and> - 180 \<le> x \<and> x \<le> 180)"
  by (cases n) (auto simp: longitude_error_iff getProp_def isValidLongitude_number)

lemma invalid_coordinate_rejected:
  assumes "\<not> isValidLatitude b (getProp (buildRequestData b formData Map.empty) ''latitude'') \<or>
           \<not> isValidLongitude b (getProp (buildRequestData b formData Map.empty) ''longitude'')"
  shows "\<exists>errors. handleFormSubmission b formData = Inl errors \<and>
           (''Valid latitude is required'' \<in> set errors \<or>
            ''Valid longitude is required'' \<in> set errors)"
proof -
  let ?data = "buildRequestData b formData Map.empty"
  have "''Valid latitude is required'' \<in> set (validateRequestData b ?data) \<or>
        ''Valid longitude is required'' \<in> set (validateRequestData b ?data)"
    using assms latitude_error_iff [of b ?data] longitude_error_iff [of b ?data] by blast
  moreover from this have "validateRequestData b ?data \<noteq> []"
    by auto
  ultimately show ?thesis
    by (simp add: handleFormSubmission_def Let_def)
qed

text \<open>
  C1.  The range tests accept a number exactly when it lies in [-90, 90] and [-180, 180]
  (\<open>isValidLatitude_number\<close>, \<open>isValidLongitude_number\<close>), and an invalid coordinate is
  reported.  But \<open>validateRequestData\<close> first tests the coordinate for truthiness, and 0
  is falsy: the latitude 0, which \<open>isValidLatitude\<close> accepts, is reported as invalid.
\<close>

theorem zero_latitude_rejected:
  "isValidLatitude b (JSNumber (Finite 0)) \<and>
   ''Valid latitude is required'' \<in>
     set (validateRequestData b (data(''latitude'' \<mapsto> JSNumber (Finite 0))))"
  by (simp add: isValidLatitude_number latitude_error_iff getProp_def)

theorem zero_latitude_rejected_witness:
  "isValidLatitude sample_builtins (JSNumber (Finite 0)) \<and>
   validateRequestData sample_builtins [''latitude'' \<mapsto> JSNumber (Finite 0)] \<noteq> []"
  using zero_latitude_rejected [of sample_builtins Map.empty] by auto

text \<open>The same on a whole form: every field is valid, the latitude is the equator's.\<close>

lemma form_with_zero_latitude:
  "handleFormSubmission sample_builtins sample_form = Inl [''Valid latitude is required'']"
  by (simp add: handleFormSubmission_def sample_builtins_def sample_form_def trim_def
      isWhiteSpace_def numericKeys_def coerceNumeric_def js_or_def validateRequestData_def
      getProp_def isValidPhoneNumber_def phoneChar_def isValidLatitude_def
      isValidLongitude_def isNaN_def num_ge_def)

section \<open>Coercion of the numeric fields\<close>

lemma buildRequestData_append:
  "buildRequestData b (xs @ ys) d = buildRequestData b ys (buildRequestData b xs d)"
  by (induction xs arbitrary: d) auto

lemma buildRequestData_other:
  "key \<notin> set (map fst later) \<Longrightarrow> buildRequestData b later d key = d key"
  by (induction later arbitrary: d) auto

lemma coerceNumeric_cases:
  "coerceNumeric b key val =
     (if parseFloat b val = NaN \<or> parseFloat b val = Finite 0
      then (if key = ''people_affected'' then JSNumber (Finite 1) else JSNull)
      else JSNumber (parseFloat b val))"
  by (cases "parseFloat b val") (auto simp: coerceNumeric_def js_or_def)

text \<open>
  C8.  In the payload built from a form, a numeric field whose text is not blank and
  whose name does not occur again later in the form holds 1 (people_affected) or null
  (latitude, longitude, estimated_cost) when its text parses to NaN or 0, and the parsed
  number otherwise.
\<close>

theorem numeric_fields_coerced:
  assumes "key \<in> set numericKeys" and "trim val \<noteq> []"
    and "key \<notin> set (map fst later)"
  shows "buildRequestData b (earlier @ (key, val) # later) Map.empty key =
           Some (if parseFloat b val = NaN \<or> parseFloat b val = Finite 0
                 then (if key = ''people_affected'' then JSNumber (Finite 1) else JSNull)
                 else JSNumber (parseFloat b val))"
  using assms
  by (simp add: buildRequestData_append buildRequestData_other coerceNumeric_cases)

text \<open>
  A latitude entered as "0" is null in the payload.  (\<open>validateRequestData\<close> then reports
  it, as \<open>form_with_zero_latitude\<close> shows; an estimated cost entered as "0" is sent as
  null.)
\<close>

theorem numeric_fields_coerced_witness:
  "''latitude'' \<in> set numericKeys \<and> trim ''0'' \<noteq> [] \<and>
   ''latitude'' \<notin> set (map fst [(''longitude'', ''72.8'')]) \<and>
   parseFloat sample_builtins ''0'' = Finite 0 \<and>
   buildRequestData sample_builtins
     ([(''title'', ''Need food'')] @ (''latitude'', ''0'') # [(''longitude'', ''72.8'')])
     Map.empty ''latitude'' = Some JSNull"
proof -
  have k: "''latitude'' \<in> set numericKeys"
    by (simp add: numericKeys_def)
  have t: "trim ''0'' \<noteq> []"
    by (simp add: trim_def isWhiteSpace_def)
  have l: "''latitude'' \<notin> set (map fst [(''longitude'', ''72.8'')])"
    by simp
  have p: "parseFloat sample_builtins ''0'' = Finite 0"
    by (simp add: sample_builtins_def)
  show ?thesis
    using numeric_fields_coerced [OF k t l, of sample_builtins "[(''title'', ''Need food'')]"] k t p
    by simp
qed

section \<open>Filters of the map\<close>

lemma filteredRequests_applyFilters:
  "filteredRequests (applyFilters s) =
     filter (\<lambda>request.
         (typeFilter s = [] \<or> request_type request = typeFilter s) \<and>
         (urgencyFilter s = [] \<or> urgency_level request = urgencyFilter s) \<and>
         (statusFilter s = [] \<or> status request = statusFilter s))
       (allRequests s)"
  by (simp add: applyFilters_def Let_def showMessage_def updateStatistics_def updateMapMarkers_def)

lemma filteredRequests_clearFilters: "filteredRequests (clearFilters s) = allRequests s"
  by (simp add: clearFilters_def Let_def showMessage_def updateStatistics_def updateMapMarkers_def)

lemma selects_clearFilters:
  "typeFilter (clearFilters s) = [] \<and> urgencyFilter (clearFilters s) = [] \<and>
   statusFilter (clearFilters s) = [] \<and> allRequests (clearFilters s) = allRequests s"
  by (simp add: clearFilters_def Let_def showMessage_def updateStatistics_def updateMapMarkers_def)

lemma sample_urgencies:
  "urgency_level (sample_request i u st) = u \<and> status (sample_request i u st) = st \<and>
   request_type (sample_request i u st) = ''FOOD'' \<and> request_id (sample_request i u st) = i"
  by (simp add: sample_request_def)

text \<open>
  C3.  \<open>applyFilters\<close> keeps, in their order, exactly the requests that equal every
  provided selection, an empty select being no selection; with the three selects empty
  the result is the whole list, and so it is after \<open>clearFilters\<close>.
\<close>

theorem applyFilters_selects:
  "filteredRequests (applyFilters s) =
     filter (meets (selected (typeFilter s)) (selected (urgencyFilter s))
               (selected (statusFilter s))) (allRequests s) \<and>
   (typeFilter s = [] \<and> urgencyFilter s = [] \<and> statusFilter s = [] \<longrightarrow>
      filteredRequests (applyFilters s) = allRequests s) \<and>
   filteredRequests (clearFilters s) = allRequests s \<and>
   filteredRequests (applyFilters (clearFilters s)) = allRequests s"
proof -
  have sel: "filteredRequests (applyFilters t) =
     filter (meets (selected (typeFilter t)) (selected (urgencyFilter t))
               (selected (statusFilter t))) (allRequests t)" for t
    unfolding filteredRequests_applyFilters
    by (rule filter_cong) (auto simp: meets_def selected_def)
  have none: "filteredRequests (applyFilters t) = allRequests t"
    if "typeFilter t = [] \<and> urgencyFilter t = [] \<and> statusFilter t = []" for t
    using that by (simp add: filteredRequests_applyFilters)
  have "filteredRequests (applyFilters (clearFilters s)) = allRequests s"
    using none [of "clearFilters s"] selects_clearFilters [of s] by simp
  then show ?thesis
    using sel [of s] none [of s] filteredRequests_clearFilters [of s] by blast
qed

theorem applyFilters_selects_witness:
  "filteredRequests (applyFilters sample_map) = [sample_request 1 ''HIGH'' ''pending''] \<and>
   typeFilter (clearFilters sample_map) = [] \<and> urgencyFilter (clearFilters sample_map) = [] \<and>
   statusFilter (clearFilters sample_map) = [] \<and>
   filteredRequests (applyFilters (clearFilters sample_map)) = sample_requests"
proof -
  have a: "filteredRequests (applyFilters sample_map) = [sample_request 1 ''HIGH'' ''pending'']"
    using applyFilters_selects [of sample_map]
    by (simp add: sample_map_def sample_requests_def selected_def meets_def sample_urgencies)
  have c: "typeFilter (clearFilters sample_map) = [] \<and>
           urgencyFilter (clearFilters sample_map) = [] \<and>
           statusFilter (clearFilters sample_map) = []"
    using selects_clearFilters [of sample_map] by simp
  have "filteredRequests (applyFilters (clearFilters sample_map)) =
          allRequests (clearFilters sample_map)"
    using applyFilters_selects [of "clearFilters sample_map"] c by blast
  then have "filteredRequests (applyFilters (clearFilters sample_map)) = sample_requests"
    using selects_clearFilters [of sample_map] by (simp add: sample_map_def)
  with a c show ?thesis by simp
qed

text \<open>
  C7.  \<open>applyFilters\<close> and \<open>clearFilters\<close> leave the list of all requests as it was; the
  filtered view holds requests of that list, and each marker refers to the request it was
  made from.  \<open>applyFilters\<close> leaves the three selects as they were.
\<close>

theorem filters_frame:
  "allRequests (applyFilters s) = allRequests s \<and>
   allRequests (clearFilters s) = allRequests s \<and>
   set (filteredRequests (applyFilters s)) \<subseteq> set (allRequests s) \<and>
   map requestData (markers (applyFilters s)) = filteredRequests (applyFilters s) \<and>
   map requestData (markers (clearFilters s)) = allRequests s \<and>
   typeFilter (applyFilters s) = typeFilter s \<and>
   urgencyFilter (applyFilters s) = urgencyFilter s \<and>
   statusFilter (applyFilters s) = statusFilter s"
  by (simp add: applyFilters_def clearFilters_def Let_def showMessage_def updateStatistics_def
      updateMapMarkers_def createRequestMarker_def comp_def)

theorem filters_frame_witness:
  "allRequests (applyFilters sample_map) = sample_requests \<and>
   allRequests (clearFilters sample_map) = sample_requests \<and>
   map requestData (markers (clearFilters sample_map)) = sample_requests"
  using filters_frame [of sample_map] by (simp add: sample_map_def)

section \<open>Loading the list of the dashboard\<close>

text \<open>
  C10.  When the fetch throws or its response is not ok, \<open>loadRequests\<close> leaves the
  requests, the page count and the current page as they were: the state differs only in
  the error state of the list and the error message.
\<close>

theorem loadRequests_error_atomic:
  assumes "r = FetchThrows \<or> r = Response False body"
  shows "requests (loadRequests s r) = requests s \<and>
         totalPages (loadRequests s r) = totalPages s \<and>
         currentPage (loadRequests s r) = currentPage s \<and>
         loadRequests s r =
           s\<lparr>requestsList := ErrorState, dashMessage := Some (LoadFailed, ''error'')\<rparr>"
  using assms by (auto simp: loadRequests_def loadFailed_def renderErrorState_def)

theorem loadRequests_error_atomic_witness:
  "requests (loadRequests sample_dashboard FetchThrows) = sample_requests \<and>
   totalPages (loadRequests sample_dashboard (Response False None)) = 3 \<and>
   currentPage (loadRequests sample_dashboard (Response False None)) = 2 \<and>
   requestsList (loadRequests sample_dashboard FetchThrows) = ErrorState"
proof -
  have t: "FetchThrows = FetchThrows \<or> FetchThrows = Response False None"
    by simp
  have f: "Response False None = FetchThrows \<or> Response False None = Response False None"
    by simp
  have "requests (loadRequests sample_dashboard FetchThrows) = requests sample_dashboard \<and>
        requestsList (loadRequests sample_dashboard FetchThrows) = ErrorState"
    using loadRequests_error_atomic [OF t, of sample_dashboard] by simp
  moreover have "totalPages (loadRequests sample_dashboard (Response False None)) =
                   totalPages sample_dashboard \<and>
                 currentPage (loadRequests sample_dashboard (Response False None)) =
                   currentPage sample_dashboard"
    using loadRequests_error_atomic [OF f, of sample_dashboard] by simp
  ultimately show ?thesis
    by (simp add: sample_dashboard_def)
qed

section \<open>The urgent statistics\<close>

lemma no_lowercase_urgency:
  "list_all (\<lambda>r. urgency_level r \<in> set urgency_levels) rs \<Longrightarrow>
   filter (\<lambda>req. urgency_level req = ''critical'' \<or> urgency_level req = ''high'') rs = []"
  by (induction rs) (auto simp: urgency_levels_def)

lemma list_all_filter: "list_all P rs \<Longrightarrow> list_all P (filter Q rs)"
  by (induction rs) auto

lemma urgentRequests_applyFilters:
  "urgentRequests (applyFilters m) =
     length (filter (\<lambda>req. urgency_level req = ''critical'' \<or> urgency_level req = ''high'')
       (filteredRequests (applyFilters m)))"
  by (simp add: applyFilters_def Let_def showMessage_def updateStatistics_def updateMapMarkers_def)

lemma urgentRequests_clearFilters:
  "urgentRequests (clearFilters m) =
     length (filter (\<lambda>req. urgency_level req = ''critical'' \<or> urgency_level req = ''high'')
       (allRequests m))"
  by (simp add: clearFilters_def Let_def showMessage_def updateStatistics_def updateMapMarkers_def)

lemma urgentCount_loadRequests:
  "urgentCount (loadRequests d (Response True (Some data))) =
     length (filter (\<lambda>r. urgency_level r = ''CRITICAL'' \<or> urgency_level r = ''HIGH'')
       (case data_requests data of None \<Rightarrow> [] | Some l \<Rightarrow> l))"
  by (simp add: loadRequests_def calculateStatistics_def updatePaginationInfo_def
      renderRequestsList_def)

text \<open>
  C9.  The dashboard counts as urgent the loaded requests whose urgency is the string
  CRITICAL or HIGH; the map counts the filtered requests whose urgency is the string
  critical or high.  When every urgency is a value of the upper-case enumeration, the
  map's count is 0, also after applying or clearing filters.
\<close>

theorem urgent_statistics:
  "urgentCount (calculateStatistics d) =
     length (filter (\<lambda>r. urgency_level r \<in> {''CRITICAL'', ''HIGH''}) (requests d)) \<and>
   urgentCount (loadRequests d (Response True (Some data))) =
     length (filter (\<lambda>r. urgency_level r \<in> {''CRITICAL'', ''HIGH''})
       (case data_requests data of None \<Rightarrow> [] | Some l \<Rightarrow> l)) \<and>
   urgentRequests (updateStatistics m) =
     length (filter (\<lambda>r. urgency_level r \<in> {''critical'', ''high''}) (filteredRequests m)) \<and>
   (list_all (\<lambda>r. urgency_level r \<in> set urgency_levels) (filteredRequests m) \<longrightarrow>
      urgentRequests (updateStatistics m) = 0) \<and>
   (list_all (\<lambda>r. urgency_level r \<in> set urgency_levels) (allRequests m) \<longrightarrow>
      urgentRequests (applyFilters m) = 0 \<and> urgentRequests (clearFilters m) = 0)"
proof -
  have eq: "(\<lambda>r. urgency_level r \<in> {a, c}) = (\<lambda>r. urgency_level r = a \<or> urgency_level r = c)"
    for a c :: string
    by auto
  have d1: "urgentCount (calculateStatistics d) =
     length (filter (\<lambda>r. urgency_level r \<in> {''CRITICAL'', ''HIGH''}) (requests d))"
    unfolding eq by (simp add: calculateStatistics_def)
  have d2: "urgentCount (loadRequests d (Response True (Some data))) =
     length (filter (\<lambda>r. urgency_level r \<in> {''CRITICAL'', ''HIGH''})
       (case data_requests data of None \<Rightarrow> [] | Some l \<Rightarrow> l))"
    unfolding eq by (rule urgentCount_loadRequests)
  have m1: "urgentRequests (updateStatistics m) =
     length (filter (\<lambda>r. urgency_level r \<in> {''critical'', ''high''}) (filteredRequests m))"
    unfolding eq by (simp add: updateStatistics_def)
  have m2: "list_all (\<lambda>r. urgency_level r \<in> set urgency_levels) (filteredRequests m) \<longrightarrow>
      urgentRequests (updateStatistics m) = 0"
    by (simp add: updateStatistics_def no_lowercase_urgency)
  have m3: "list_all (\<lambda>r. urgency_level r \<in> set urgency_levels) (allRequests m) \<longrightarrow>
      urgentRequests (applyFilters m) = 0 \<and> urgentRequests (clearFilters m) = 0"
  proof
    assume a: "list_all (\<lambda>r. urgency_level r \<in> set urgency_levels) (allRequests m)"
    then have "list_all (\<lambda>r. urgency_level r \<in> set urgency_levels)
                 (filteredRequests (applyFilters m))"
      unfolding filteredRequests_applyFilters by (rule list_all_filter)
    then have "urgentRequests (applyFilters m) = 0"
      by (simp add: urgentRequests_applyFilters no_lowercase_urgency)
    moreover have "urgentRequests (clearFilters m) = 0"
      using a by (simp add: urgentRequests_clearFilters no_lowercase_urgency)
    ultimately show "urgentRequests (applyFilters m) = 0 \<and> urgentRequests (clearFilters m) = 0"
      by simp
  qed
  from d1 d2 m1 m2 m3 show ?thesis by blast
qed

theorem urgent_statistics_witness:
  "list_all (\<lambda>r. urgency_level r \<in> set urgency_levels) (allRequests sample_map) \<and>
   urgentRequests (clearFilters sample_map) = 0 \<and>
   urgentRequests (applyFilters sample_map) = 0 \<and>
   urgentCount (calculateStatistics sample_dashboard) = 2 \<and>
   urgentCount (loadRequests sample_dashboard (Response True (Some sample_listing))) = 2"
proof -
  have a: "list_all (\<lambda>r. urgency_level r \<in> set urgency_levels) (allRequests sample_map)"
    by (simp add: sample_map_def sample_requests_def sample_urgencies urgency_levels_def)
  have c: "urgentCount (calculateStatistics sample_dashboard) = 2"
    using urgent_statistics [of sample_dashboard sample_listing sample_map]
    by (simp add: sample_dashboard_def sample_requests_def sample_urgencies)
  have l: "urgentCount (loadRequests sample_dashboard (Response True (Some sample_listing))) = 2"
    using urgent_statistics [of sample_dashboard sample_listing sample_map]
    by (simp add: sample_listing_def sample_requests_def sample_urgencies)
  show ?thesis
    using urgent_statistics [of sample_dashboard sample_listing sample_map] a c l by blast
qed


section \<open>The listing of the Query/Filter Engine\<close>

lemma ceil_div_bounds:
  assumes "0 < d"
  shows "n \<le> ceil_div n d * d \<and> ceil_div n d * d < n + d"
proof -
  have eq: "n + d - 1 = ceil_div n d * d + (n + d - 1) mod d"
    unfolding ceil_div_def by simp
  have lt: "(n + d - 1) mod d < d"
    using assms by simp
  show ?thesis
    using eq lt assms by linarith
qed

lemma ceil_div_ceiling:
  assumes "0 < d"
  shows "int (ceil_div n d) = \<lceil>real n / real d\<rceil>"
proof -
  have b: "n \<le> ceil_div n d * d" "ceil_div n d * d < n + d"
    using ceil_div_bounds [OF assms, of n] by simp_all
  have d: "0 < real d"
    using assms by simp
  have "real n \<le> real (ceil_div n d) * real d"
    using b(1) by (metis of_nat_le_iff of_nat_mult)
  then have up: "real n / real d \<le> of_int (int (ceil_div n d))"
    using d by (simp add: pos_divide_le_eq)
  have "real (ceil_div n d) * real d < real n + real d"
    using b(2) by (metis of_nat_less_iff of_nat_mult of_nat_add)
  then have "(real (ceil_div n d) - 1) * real d < real n"
    by (simp add: algebra_simps)
  then have low: "of_int (int (ceil_div n d)) - 1 < real n / real d"
    using d by (simp add: pos_less_divide_eq)
  show ?thesis
    using ceiling_unique [OF low up] by simp
qed

lemma listing_ok:
  assumes "0 < page cfg" and "0 < page_size cfg"
  shows "listing m cfg rs =
     Inr \<lparr>res_requests =
            take (min (page_size cfg) m)
              (drop ((page cfg - 1) * min (page_size cfg) m)
                 (sort_key (ordering_key cfg) (filter (matches cfg) rs))),
          res_total = length (filter (matches cfg) rs),
          res_total_pages = ceil_div (length (filter (matches cfg) rs)) (min (page_size cfg) m)\<rparr>"
  using assms by (simp add: listing_def Let_def)

lemma matches_no_filters: "no_filters cfg \<Longrightarrow> filter (matches cfg) rs = rs"
  by (simp add: no_filters_def matches_def)

lemma page_subset: "set (take n (drop k (sort_key f (filter P rs)))) \<subseteq> {r \<in> set rs. P r}"
proof
  fix x assume "x \<in> set (take n (drop k (sort_key f (filter P rs))))"
  then have "x \<in> set (sort_key f (filter P rs))"
    by (meson in_set_dropD in_set_takeD)
  then show "x \<in> {r \<in> set rs. P r}" by simp
qed

lemma page_length:
  "length (take n (drop ((p - 1) * n) (sort_key f xs))) = min n (length xs - (p - 1) * n)"
  by (simp add: min.commute)

lemma example_pages: "ceil_div 25 10 = 3"
  by (simp add: ceil_div_def)

text \<open>
  C4.  For a configuration with a positive page and a positive page size within the cap,
  the listing returns a page of matching records (at most a page size of them, as many as
  the matching records leave from the page's offset on), the number of matching records,
  and the number of pages, the ceiling of that number over the page size.  Page 2 of
  size 10 over 25 records, no filter given, has 10 records, total 25 and 3 pages.
\<close>

theorem listing_page_and_totals:
  assumes "0 < page cfg" and "0 < page_size cfg" and "page_size cfg \<le> m"
  shows "\<exists>res. listing m cfg rs = Inr res \<and>
           res_total res = length (filter (matches cfg) rs) \<and>
           int (res_total_pages res) = \<lceil>real (res_total res) / real (page_size cfg)\<rceil> \<and>
           set (res_requests res) \<subseteq> {r \<in> set rs. matches cfg r} \<and>
           length (res_requests res) =
             min (page_size cfg) (res_total res - (page cfg - 1) * page_size cfg) \<and>
           (length rs = 25 \<and> no_filters cfg \<and> page cfg = 2 \<and> page_size cfg = 10 \<longrightarrow>
              length (res_requests res) = 10 \<and> res_total res = 25 \<and> res_total_pages res = 3)"
proof -
  define matching where "matching = filter (matches cfg) rs"
  define pg where
    "pg = take (page_size cfg) (drop ((page cfg - 1) * page_size cfg)
            (sort_key (ordering_key cfg) matching))"
  define res where
    "res = \<lparr>res_requests = pg, res_total = length matching,
            res_total_pages = ceil_div (length matching) (page_size cfg)\<rparr>"
  have size: "min (page_size cfg) m = page_size cfg"
    using assms(3) by simp
  have eq: "listing m cfg rs = Inr res"
    unfolding res_def pg_def matching_def
    using listing_ok [OF assms(1,2), of m rs] by (simp only: size)
  have total: "res_total res = length (filter (matches cfg) rs)"
    by (simp add: res_def matching_def)
  have pages: "int (res_total_pages res) = \<lceil>real (res_total res) / real (page_size cfg)\<rceil>"
    using ceil_div_ceiling [OF assms(2), of "length matching"] by (simp add: res_def)
  have sub: "set (res_requests res) \<subseteq> {r \<in> set rs. matches cfg r}"
    using page_subset [of "page_size cfg" "(page cfg - 1) * page_size cfg" "ordering_key cfg"
        "matches cfg" rs]
    by (simp add: res_def pg_def matching_def)
  have len: "length (res_requests res) =
             min (page_size cfg) (res_total res - (page cfg - 1) * page_size cfg)"
    using page_length [of "page_size cfg" "page cfg" "ordering_key cfg" matching]
    by (simp add: res_def pg_def)
  have ex: "length rs = 25 \<and> no_filters cfg \<and> page cfg = 2 \<and> page_size cfg = 10 \<longrightarrow>
              length (res_requests res) = 10 \<and> res_total res = 25 \<and> res_total_pages res = 3"
  proof
    assume a: "length rs = 25 \<and> no_filters cfg \<and> page cfg = 2 \<and> page_size cfg = 10"
    then have m: "length matching = 25"
      by (simp add: matching_def matches_no_filters)
    have "length (res_requests res) = 10"
      using len a m by (simp add: res_def)
    moreover have "res_total res = 25"
      using m by (simp add: res_def)
    moreover have "res_total_pages res = 3"
      using m a example_pages by (simp add: res_def)
    ultimately show "length (res_requests res) = 10 \<and> res_total res = 25 \<and> res_total_pages res = 3"
      by simp
  qed
  from eq total pages sub len ex show ?thesis
    by blast
qed

theorem listing_page_and_totals_witness:
  "0 < page sample_config \<and> 0 < page_size sample_config \<and> page_size sample_config \<le> 100 \<and>
   length sample_store25 = 25 \<and> no_filters sample_config \<and>
   (\<exists>res. listing 100 sample_config sample_store25 = Inr res \<and>
      length (res_requests res) = 10 \<and> res_total res = 25 \<and> res_total_pages res = 3)"
proof -
  have p: "0 < page sample_config" and s: "0 < page_size sample_config"
    and c: "page_size sample_config \<le> 100"
    by (simp_all add: sample_config_def)
  have l: "length sample_store25 = 25"
    by (simp add: sample_store25_def)
  have n: "no_filters sample_config \<and> page sample_config = 2 \<and> page_size sample_config = 10"
    by (simp add: no_filters_def sample_config_def)
  show ?thesis
    using listing_page_and_totals [OF p s c, of sample_store25] p s c l n by blast
qed

lemma ordering_key_inj:
  assumes "distinct (map request_id rs)"
  shows "inj_on (ordering_key cfg) (set rs)"
proof (rule inj_onI)
  fix x y assume "x \<in> set rs" "y \<in> set rs" "ordering_key cfg x = ordering_key cfg y"
  then have "request_id x = request_id y"
    by (simp add: ordering_key_def)
  with assms \<open>x \<in> set rs\<close> \<open>y \<in> set rs\<close> show "x = y"
    by (meson distinct_map inj_onD)
qed

lemma sorted_matching_perm:
  assumes "mset rs1 = mset rs2" and "distinct (map request_id rs1)"
  shows "sort_key (ordering_key cfg) (filter P rs1) = sort_key (ordering_key cfg) (filter P rs2)"
proof (rule sort_key_inj_key_eq)
  show "mset (filter P rs1) = mset (sort_key (ordering_key cfg) (filter P rs2))"
    using assms(1) by simp
  have "inj_on (ordering_key cfg) (set rs1)"
    using assms(2) by (rule ordering_key_inj)
  then show "inj_on (ordering_key cfg) (set (filter P rs1))"
    by (rule inj_on_subset) auto
  show "sorted (map (ordering_key cfg) (sort_key (ordering_key cfg) (filter P rs2)))"
    by (rule sorted_sort_key)
qed

lemma listing_perm:
  assumes "mset rs1 = mset rs2" and "distinct (map request_id rs1)"
  shows "listing m cfg rs1 = listing m cfg rs2"
proof -
  have "length (filter (matches cfg) rs1) = length (filter (matches cfg) rs2)"
    using assms(1) by (metis mset_filter size_mset)
  then show ?thesis
    using sorted_matching_perm [OF assms, of cfg "matches cfg"]
    by (simp add: listing_def Let_def)
qed

lemma sorted_page: "sorted (map f (take n (drop k (sort_key f xs))))"
proof -
  have "sorted (map f (sort_key f xs))"
    by (rule sorted_sort_key)
  then have "sorted (take n (drop k (map f (sort_key f xs))))"
    by simp
  then show ?thesis
    by (simp add: take_map drop_map)
qed

lemma listing_sorted:
  assumes "listing m cfg rs = Inr res"
  shows "sorted (map (ordering_key cfg) (res_requests res))"
proof -
  have "res_requests res =
          take (min (page_size cfg) m) (drop ((page cfg - 1) * min (page_size cfg) m)
            (sort_key (ordering_key cfg) (filter (matches cfg) rs)))"
    using assms by (auto simp: listing_def Let_def split: if_splits)
  then show ?thesis
    by (simp only: sorted_page)
qed

lemma sorted_ties:
  assumes "sorted (map (ordering_key cfg) xs)" and "i < j" and "j < length xs"
    and "sort_value (sort_by cfg) (xs ! i) = sort_value (sort_by cfg) (xs ! j)"
  shows "request_id (xs ! i) \<le> request_id (xs ! j)"
proof -
  have "ordering_key cfg (xs ! i) \<le> ordering_key cfg (xs ! j)"
    using assms(1-3) sorted_nth_mono [of "map (ordering_key cfg) xs" i j] by simp
  then show ?thesis
    using assms(4) by (cases "sort_order cfg") (simp_all add: ordering_key_def)
qed

text \<open>
  C6.  The result of a listing depends on the configuration and on the records stored,
  not on the order they are stored in: two snapshots that hold the same records, with
  distinct identifiers, give the same result list in the same order.  Each result is
  sorted by the key of the configuration, and of two records with equal sort values the
  one with the smaller identifier comes first.  The filter of the map page depends only
  on the list of all requests and the three selects.
\<close>

theorem listing_deterministic:
  "(mset rs1 = mset rs2 \<and> distinct (map request_id rs1) \<longrightarrow>
      listing m cfg rs1 = listing m cfg rs2) \<and>
   (listing m cfg rs = Inr res \<longrightarrow>
      sorted (map (ordering_key cfg) (res_requests res)) \<and>
      (\<forall>i j. i < j \<and> j < length (res_requests res) \<and>
             sort_value (sort_by cfg) (res_requests res ! i) =
               sort_value (sort_by cfg) (res_requests res ! j) \<longrightarrow>
             request_id (res_requests res ! i) \<le> request_id (res_requests res ! j))) \<and>
   (allRequests s1 = allRequests s2 \<and> typeFilter s1 = typeFilter s2 \<and>
    urgencyFilter s1 = urgencyFilter s2 \<and> statusFilter s1 = statusFilter s2 \<longrightarrow>
      filteredRequests (applyFilters s1) = filteredRequests (applyFilters s2))"
proof -
  have a: "mset rs1 = mset rs2 \<and> distinct (map request_id rs1) \<longrightarrow>
      listing m cfg rs1 = listing m cfg rs2"
    using listing_perm by blast
  have b: "listing m cfg rs = Inr res \<longrightarrow>
      sorted (map (ordering_key cfg) (res_requests res)) \<and>
      (\<forall>i j. i < j \<and> j < length (res_requests res) \<and>
             sort_value (sort_by cfg) (res_requests res ! i) =
               sort_value (sort_by cfg) (res_requests res ! j) \<longrightarrow>
             request_id (res_requests res ! i) \<le> request_id (res_requests res ! j))"
    using listing_sorted sorted_ties by blast
  have c: "allRequests s1 = allRequests s2 \<and> typeFilter s1 = typeFilter s2 \<and>
    urgencyFilter s1 = urgencyFilter s2 \<and> statusFilter s1 = statusFilter s2 \<longrightarrow>
      filteredRequests (applyFilters s1) = filteredRequests (applyFilters s2)"
    by (simp add: filteredRequests_applyFilters)
  from a b c show ?thesis by blast
qed

theorem listing_deterministic_witness:
  "mset sample_ties = mset (rev sample_ties) \<and> distinct (map request_id sample_ties) \<and>
   listing 100 (sample_config\<lparr>page := 1\<rparr>) sample_ties =
     listing 100 (sample_config\<lparr>page := 1\<rparr>) (rev sample_ties) \<and>
   (\<exists>res. listing 100 (sample_config\<lparr>page := 1\<rparr>) (rev sample_ties) = Inr res \<and>
      map request_id (res_requests res) = [4, 5, 6] \<and>
      sorted (map (ordering_key (sample_config\<lparr>page := 1\<rparr>)) (res_requests res)))"
proof -
  let ?cfg = "sample_config\<lparr>page := 1\<rparr>"
  let ?res = "\<lparr>res_requests = [sample_request 4 ''HIGH'' ''pending'',
                 sample_request 5 ''HIGH'' ''pending'', sample_request 6 ''LOW'' ''pending''],
               res_total = 3, res_total_pages = 1\<rparr>"
  have m: "mset sample_ties = mset (rev sample_ties)"
    by simp
  have d: "distinct (map request_id sample_ties)"
    by (simp add: sample_ties_def sample_urgencies)
  have e: "listing 100 ?cfg (rev sample_ties) = Inr ?res"
    by (simp add: listing_def sample_config_def sample_ties_def matches_def Let_def
        ordering_key_def sort_value_def urgency_rank_def sample_urgencies ceil_div_def)
  have l: "listing 100 ?cfg sample_ties = listing 100 ?cfg (rev sample_ties)"
    using listing_deterministic [of sample_ties "rev sample_ties" 100 ?cfg] m d by blast
  have s: "sorted (map (ordering_key ?cfg) (res_requests ?res))"
    using listing_deterministic [of sample_ties "rev sample_ties" 100 ?cfg "rev sample_ties" ?res] e
    by blast
  have i: "map request_id (res_requests ?res) = [4, 5, 6]"
    by (simp add: sample_urgencies)
  show ?thesis
    by (intro conjI exI [of _ ?res]) (fact m d l e i s)+
qed


section \<open>The lifecycle of a request\<close>

lemma find_map_id:
  assumes "\<And>r. request_id (g r) = request_id r"
  shows "find (\<lambda>r. request_id r = i) (map g xs) = map_option g (find (\<lambda>r. request_id r = i) xs)"
  by (induction xs) (simp_all add: assms)

lemma find_append_first:
  "find P xs = Some x \<Longrightarrow> find P (xs @ ys) = Some x"
  by (induction xs) (auto split: if_splits)

lemma get_Inr_iff: "get i st = Inr r \<longleftrightarrow> find (\<lambda>r. request_id r = i) (records st) = Some r"
  by (simp add: get_def split: option.splits)

lemma get_request_id: "get i st = Inr r \<Longrightarrow> request_id r = i"
  by (auto simp: get_Inr_iff find_Some_iff)

lemma get_update_record:
  assumes "\<And>r. request_id (f r) = request_id r" and "get i st = Inr r"
  shows "get i (update_record j f st) = Inr (if i = j then f r else r)"
proof -
  have "find (\<lambda>r. request_id r = i) (map (\<lambda>r. if request_id r = j then f r else r) (records st)) =
          map_option (\<lambda>r. if request_id r = j then f r else r)
            (find (\<lambda>r. request_id r = i) (records st))"
    by (rule find_map_id) (simp add: assms(1))
  then show ?thesis
    using assms(2) get_request_id [OF assms(2)]
    by (simp add: get_Inr_iff update_record_def)
qed

lemma get_create:
  assumes "create now p st = Inr (st', r')" and "get i st = Inr r"
  shows "get i st' = Inr r"
  using assms
  by (auto simp: create_def Let_def get_Inr_iff find_append_first split: if_splits)

lemma assign_result:
  assumes "get i st = Inr r"
  shows "assign i n c now st =
           (if status r \<noteq> ''pending'' then Inl (InvalidTransitionError (status r))
            else Inr (update_record i
                   (\<lambda>r. r\<lparr>assigned_to := Some n, assigned_contact := Some c,
                           status := ''in_progress'', updated_at := now\<rparr>) st))"
  using assms by (simp add: assign_def)

lemma complete_result:
  assumes "get i st = Inr r"
  shows "complete i now st =
           (if status r \<noteq> ''in_progress'' then Inl (InvalidTransitionError (status r))
            else Inr (update_record i (\<lambda>r. r\<lparr>status := ''completed'', updated_at := now\<rparr>) st))"
  using assms by (simp add: complete_def)

lemma assign_forward:
  assumes "assign i n c now st = Inr st'" and "get j st = Inr q"
  shows "\<exists>q'. get j st' = Inr q' \<and> status_rank (status q) \<le> status_rank (status q')"
proof -
  obtain r where r: "get i st = Inr r"
    using assms(1) by (cases "get i st") (auto simp: assign_def)
  have p: "status r = ''pending''"
    using assms(1) r by (auto simp: assign_result split: if_splits)
  have st': "st' = update_record i
                   (\<lambda>r. r\<lparr>assigned_to := Some n, assigned_contact := Some c,
                           status := ''in_progress'', updated_at := now\<rparr>) st"
    using assms(1) r p by (simp add: assign_result)
  have g: "get j st' = Inr (if j = i then q\<lparr>assigned_to := Some n, assigned_contact := Some c,
                           status := ''in_progress'', updated_at := now\<rparr> else q)"
    unfolding st' by (rule get_update_record [OF _ assms(2)]) simp
  show ?thesis
  proof (cases "j = i")
    case True
    then have "q = r" using r assms(2) by simp
    then show ?thesis using g True p by (simp add: status_rank_def)
  next
    case False
    then show ?thesis using g by simp
  qed
qed

lemma complete_forward:
  assumes "complete i now st = Inr st'" and "get j st = Inr q"
  shows "\<exists>q'. get j st' = Inr q' \<and> status_rank (status q) \<le> status_rank (status q')"
proof -
  obtain r where r: "get i st = Inr r"
    using assms(1) by (cases "get i st") (auto simp: complete_def)
  have p: "status r = ''in_progress''"
    using assms(1) r by (auto simp: complete_result split: if_splits)
  have st': "st' = update_record i (\<lambda>r. r\<lparr>status := ''completed'', updated_at := now\<rparr>) st"
    using assms(1) r p by (simp add: complete_result)
  have g: "get j st' = Inr (if j = i then q\<lparr>status := ''completed'', updated_at := now\<rparr> else q)"
    unfolding st' by (rule get_update_record [OF _ assms(2)]) simp
  show ?thesis
  proof (cases "j = i")
    case True
    then have "q = r" using r assms(2) by simp
    then show ?thesis using g True p by (simp add: status_rank_def)
  next
    case False
    then show ?thesis using g by simp
  qed
qed

lemma step_forward:
  assumes "step x st = Inr st'" and "get j st = Inr q"
  shows "\<exists>q'. get j st' = Inr q' \<and> status_rank (status q) \<le> status_rank (status q')"
proof (cases x)
  case (Create now p)
  then obtain r' where "create now p st = Inr (st', r')"
    using assms(1) by (auto split: sum.splits)
  then have "get j st' = Inr q"
    using assms(2) by (rule get_create)
  then show ?thesis by simp
next
  case (AssignTo i n c now)
  then show ?thesis using assms assign_forward by simp
next
  case (Complete i now)
  then show ?thesis using assms complete_forward by simp
qed

lemma run_forward:
  assumes "get j st = Inr q"
  shows "\<exists>q'. get j (run xs st) = Inr q' \<and> status_rank (status q) \<le> status_rank (status q')"
  using assms
proof (induction xs arbitrary: st q)
  case Nil
  then show ?case by simp
next
  case (Cons x xs)
  show ?case
  proof (cases "step x st")
    case (Inl e)
    then show ?thesis using Cons.IH [OF Cons.prems] by simp
  next
    case (Inr st')
    then obtain q1 where q1: "get j st' = Inr q1" "status_rank (status q) \<le> status_rank (status q1)"
      using step_forward [OF Inr Cons.prems] by blast
    obtain q' where "get j (run xs st') = Inr q'" "status_rank (status q1) \<le> status_rank (status q')"
      using Cons.IH [OF q1(1)] by blast
    then show ?thesis using q1(2) Inr by auto
  qed
qed

lemma toLowerCase_statuses: "s \<in> set statuses \<Longrightarrow> toLowerCase s = s"
  by (auto simp: statuses_def toLowerCase_def lowerChar_def)

lemma card_actions:
  "(Assign i \<in> set (createRequestCard r) \<longleftrightarrow>
      i = request_id r \<and> toLowerCase (status r) = ''pending'') \<and>
   (MarkComplete i \<in> set (createRequestCard r) \<longleftrightarrow>
      i = request_id r \<and> toLowerCase (status r) = ''in_progress'')"
  by (auto simp: createRequestCard_def)

lemma popup_actions:
  "(Assign i \<in> set (createPopupContent r) \<longleftrightarrow> i = request_id r \<and> status r = ''pending'') \<and>
   MarkComplete i \<notin> set (createPopupContent r)"
  by (auto simp: createPopupContent_def)

lemma offered_succeeds:
  assumes "status r \<in> set statuses" and "get (request_id r) st = Inr r"
    and "a \<in> set (createRequestCard r)"
  shows "\<exists>st'. perform a n c ok now st = Inr st'"
proof (cases a)
  case (ViewDetails i)
  then show ?thesis by simp
next
  case (Assign i)
  then have "i = request_id r \<and> status r = ''pending''"
    using assms(1,3) card_actions [of i r] toLowerCase_statuses by auto
  then show ?thesis
    using Assign assms(2) by (simp add: assignRequest_def assign_result)
next
  case (MarkComplete i)
  then have "i = request_id r \<and> status r = ''in_progress''"
    using assms(1,3) card_actions [of i r] toLowerCase_statuses by auto
  then show ?thesis
    using MarkComplete assms(2) by (simp add: completeRequest_def complete_result)
next
  case (Directions lat lng)
  then show ?thesis by simp
qed

lemma transitions_gated:
  assumes "get i st = Inr r"
  shows "((\<exists>st'. assign i n c now st = Inr st') \<longleftrightarrow> status r = ''pending'') \<and>
         ((\<exists>st'. complete i now st = Inr st') \<longleftrightarrow> status r = ''in_progress'') \<and>
         (status r \<noteq> ''pending'' \<longrightarrow>
            assign i n c now st = Inl (InvalidTransitionError (status r))) \<and>
         (status r \<noteq> ''in_progress'' \<longrightarrow>
            complete i now st = Inl (InvalidTransitionError (status r)))"
  by (simp add: assign_result [OF assms] complete_result [OF assms])

text \<open>
  C2.  The dashboard's card offers the assign button exactly for a request whose status
  (in lower case) is pending and the complete button exactly for one in progress; the
  map's popup offers the assign button exactly for a pending request and never a complete
  button.  In the store, \<open>assign\<close> succeeds exactly on a pending request and \<open>complete\<close>
  exactly on one in progress, any other status gives an invalid-transition error, and
  over any run of operations the status of a stored request never moves backward on the
  path pending, in_progress, completed.  A button the dashboard offers for a request as
  stored, with a status of the enumeration, performs a transition the store accepts.
\<close>

theorem status_only_moves_forward:
  "(Assign i \<in> set (createRequestCard r) \<longleftrightarrow>
      i = request_id r \<and> toLowerCase (status r) = ''pending'') \<and>
   (MarkComplete i \<in> set (createRequestCard r) \<longleftrightarrow>
      i = request_id r \<and> toLowerCase (status r) = ''in_progress'') \<and>
   (Assign i \<in> set (createPopupContent r) \<longleftrightarrow> i = request_id r \<and> status r = ''pending'') \<and>
   MarkComplete i \<notin> set (createPopupContent r) \<and>
   (get i st = Inr r \<longrightarrow>
      ((\<exists>st'. assign i n c now st = Inr st') \<longleftrightarrow> status r = ''pending'') \<and>
      ((\<exists>st'. complete i now st = Inr st') \<longleftrightarrow> status r = ''in_progress'') \<and>
      (status r \<noteq> ''pending'' \<longrightarrow>
         assign i n c now st = Inl (InvalidTransitionError (status r))) \<and>
      (status r \<noteq> ''in_progress'' \<longrightarrow>
         complete i now st = Inl (InvalidTransitionError (status r)))) \<and>
   (get j st = Inr q \<longrightarrow>
      (\<exists>q'. get j (run xs st) = Inr q' \<and> status_rank (status q) \<le> status_rank (status q'))) \<and>
   (status r \<in> set statuses \<and> get (request_id r) st = Inr r \<and>
    a \<in> set (createRequestCard r) \<longrightarrow>
      (\<exists>st'. perform a n c ok now st = Inr st'))"
proof -
  have s: "get i st = Inr r \<longrightarrow>
      ((\<exists>st'. assign i n c now st = Inr st') \<longleftrightarrow> status r = ''pending'') \<and>
      ((\<exists>st'. complete i now st = Inr st') \<longleftrightarrow> status r = ''in_progress'') \<and>
      (status r \<noteq> ''pending'' \<longrightarrow>
         assign i n c now st = Inl (InvalidTransitionError (status r))) \<and>
      (status r \<noteq> ''in_progress'' \<longrightarrow>
         complete i now st = Inl (InvalidTransitionError (status r)))"
    using transitions_gated [of i st r n c now] by blast
  have f: "get j st = Inr q \<longrightarrow>
      (\<exists>q'. get j (run xs st) = Inr q' \<and> status_rank (status q) \<le> status_rank (status q'))"
    using run_forward [of j st q xs] by blast
  have o: "status r \<in> set statuses \<and> get (request_id r) st = Inr r \<and>
    a \<in> set (createRequestCard r) \<longrightarrow>
      (\<exists>st'. perform a n c ok now st = Inr st')"
    using offered_succeeds [of r st a n c ok now] by blast
  show ?thesis
    by (intro conjI) (fact s f o conjunct1 [OF card_actions] conjunct2 [OF card_actions]
        conjunct1 [OF popup_actions] conjunct2 [OF popup_actions])+
qed

lemma sample_store_get:
  "get 1 sample_store = Inr (sample_request 1 ''HIGH'' ''pending'')"
  by (simp add: get_def sample_store_def sample_requests_def sample_urgencies)

theorem status_only_moves_forward_witness:
  "get 1 sample_store = Inr (sample_request 1 ''HIGH'' ''pending'') \<and>
   status (sample_request 1 ''HIGH'' ''pending'') \<in> set statuses \<and>
   Assign 1 \<in> set (createRequestCard (sample_request 1 ''HIGH'' ''pending'')) \<and>
   (\<exists>st'. assign 1 ''NGO A'' ''+91-8888888888'' 10 sample_store = Inr st') \<and>
   complete 1 10 sample_store = Inl (InvalidTransitionError ''pending'') \<and>
   (\<exists>q'. get 1 (run [AssignTo 1 ''NGO A'' ''+91-8888888888'' 10, Complete 1 20, Complete 1 30]
                sample_store) = Inr q' \<and>
         status_rank ''pending'' \<le> status_rank (status q')) \<and>
   (\<exists>st'. perform (Assign 1) ''NGO A'' ''+91-8888888888'' True 10 sample_store = Inr st')"
proof -
  let ?r = "sample_request 1 ''HIGH'' ''pending''"
  let ?xs = "[AssignTo 1 ''NGO A'' ''+91-8888888888'' 10, Complete 1 20, Complete 1 30]"
  note inst = status_only_moves_forward [of 1 ?r sample_store "''NGO A''" "''+91-8888888888''"
      10 1 ?r ?xs "Assign 1" True]
  note card = inst [THEN conjunct1]
  note gated = inst [THEN conjunct2, THEN conjunct2, THEN conjunct2, THEN conjunct2,
      THEN conjunct1]
  note forward = inst [THEN conjunct2, THEN conjunct2, THEN conjunct2, THEN conjunct2,
      THEN conjunct2, THEN conjunct1]
  note offered = inst [THEN conjunct2, THEN conjunct2, THEN conjunct2, THEN conjunct2,
      THEN conjunct2, THEN conjunct2]
  have g: "get 1 sample_store = Inr ?r"
    by (rule sample_store_get)
  have p: "status ?r = ''pending''" and i: "1 = request_id ?r"
    by (simp_all add: sample_urgencies)
  have e: "status ?r \<in> set statuses"
    unfolding p by (simp add: statuses_def)
  have lc: "toLowerCase (status ?r) = ''pending''"
    using toLowerCase_statuses [OF e] p by simp
  have m: "Assign 1 \<in> set (createRequestCard ?r)"
    using card i lc by blast
  have a: "\<exists>st'. assign 1 ''NGO A'' ''+91-8888888888'' 10 sample_store = Inr st'"
    using gated g p by blast
  have ne: "status ?r \<noteq> ''in_progress''"
    unfolding p by simp
  have "complete 1 10 sample_store = Inl (InvalidTransitionError (status ?r))"
    using gated g ne by blast
  then have c: "complete 1 10 sample_store = Inl (InvalidTransitionError ''pending'')"
    by (simp only: p)
  have "\<exists>q'. get 1 (run ?xs sample_store) = Inr q' \<and>
             status_rank (status ?r) \<le> status_rank (status q')"
    using forward g by blast
  then have f: "\<exists>q'. get 1 (run ?xs sample_store) = Inr q' \<and>
             status_rank ''pending'' \<le> status_rank (status q')"
    by (simp only: p)
  have g': "get (request_id ?r) sample_store = Inr ?r"
    using g i by simp
  have o: "\<exists>st'. perform (Assign 1) ''NGO A'' ''+91-8888888888'' True 10 sample_store = Inr st'"
    using offered g' e m by blast
  show ?thesis
    by (intro conjI) (fact g e m a c f o)+
qed

section \<open>The Duplicate/Spam Filter\<close>

lemma find_first:
  assumes "x \<in> set xs" and "P x"
  shows "\<exists>y. find P xs = Some y \<and> P y \<and> y \<in> set xs"
  using assms by (induction xs) auto

lemma duplicate_found:
  assumes "r \<in> set history" and "within_window pol now r"
    and "contact_phone r = p_contact_phone cand"
    and "near pol (latitude r, longitude r) (p_latitude cand, p_longitude cand)"
  shows "\<exists>d. d \<in> set history \<and> is_duplicate pol cand d \<and>
             duplicate_filter pol now history cand = Reject (DuplicateOf (request_id d))"
proof -
  have "r \<in> set (filter (within_window pol now) history)" and "is_duplicate pol cand r"
    using assms by (simp_all add: is_duplicate_def)
  then obtain d where d: "find (is_duplicate pol cand) (filter (within_window pol now) history) = Some d"
    "is_duplicate pol cand d" "d \<in> set (filter (within_window pol now) history)"
    using find_first [of r "filter (within_window pol now) history" "is_duplicate pol cand"]
    by blast
  then show ?thesis
    by (intro exI [of _ d]) (simp add: duplicate_filter_def)
qed

lemma filter_empty_history: "duplicate_filter pol now [] cand = Accept"
  by (simp add: duplicate_filter_def)

lemma create_ok:
  "validation_errors p = [] \<Longrightarrow>
   create now p st =
     Inr (st\<lparr>records := records st @ [new_request (next_id st) now p],
             next_id := Suc (next_id st)\<rparr>, new_request (next_id st) now p)"
  by (simp add: create_def Let_def)

lemma create_Inr:
  assumes "create now p st = Inr (st', r)"
  shows "r = new_request (next_id st) now p \<and> records st' = records st @ [r]"
proof (cases "validation_errors p = []")
  case True
  then show ?thesis using assms by (auto simp: create_ok)
next
  case False
  then show ?thesis using assms by (simp add: create_def)
qed

lemma intake_Inr:
  assumes "intake pol now cand st = Inr (st', r)"
  shows "create now cand st = Inr (st', r)"
proof (cases "validation_errors cand = []")
  case True
  show ?thesis
  proof (cases "duplicate_filter pol now (records st) cand")
    case Accept
    then show ?thesis using assms True by (simp add: intake_def)
  next
    case (Reject reason)
    then show ?thesis using assms True by (simp add: intake_def)
  qed
next
  case False
  then show ?thesis using assms by (simp add: intake_def)
qed

lemma intake_accepted:
  assumes "intake pol now cand st = Inr (st', r)"
  shows "r \<in> set (records st') \<and> r = new_request (next_id st) now cand"
  using create_Inr [OF intake_Inr [OF assms]] by simp

lemma intake_empty_history:
  assumes "records st = []" and "validation_errors cand = []"
  shows "intake pol now cand st =
           Inr (st\<lparr>records := [new_request (next_id st) now cand], next_id := Suc (next_id st)\<rparr>,
                new_request (next_id st) now cand)"
  using assms by (simp add: intake_def filter_empty_history create_ok)

text \<open>
  C5.  A candidate with the contact phone of a stored request of the duplicate window
  and a near-identical position is rejected by the filter as a duplicate, and the intake
  of a valid such payload fails with DuplicateRejected; so does a second submission that
  follows an accepted one within the window.  On an empty history the filter accepts
  every candidate, and the intake accepts every valid payload.
\<close>

theorem duplicate_submission_rejected:
  "(r \<in> set (records st) \<and> within_window pol now r \<and>
    contact_phone r = p_contact_phone cand \<and>
    near pol (latitude r, longitude r) (p_latitude cand, p_longitude cand) \<longrightarrow>
      (\<exists>d. d \<in> set (records st) \<and> is_duplicate pol cand d \<and>
           duplicate_filter pol now (records st) cand = Reject (DuplicateOf (request_id d)) \<and>
           (validation_errors cand = [] \<longrightarrow>
              intake pol now cand st = Inl (DuplicateRejected (DuplicateOf (request_id d)))))) \<and>
   (intake pol t1 p1 st = Inr (st1, r1) \<and> t2 \<le> t1 + window pol \<and>
    p_contact_phone p2 = p_contact_phone p1 \<and>
    near pol (p_latitude p1, p_longitude p1) (p_latitude p2, p_longitude p2) \<and>
    validation_errors p2 = [] \<longrightarrow>
      (\<exists>d. intake pol t2 p2 st1 = Inl (DuplicateRejected (DuplicateOf d)))) \<and>
   duplicate_filter pol now [] cand = Accept \<and>
   (records st = [] \<and> validation_errors cand = [] \<longrightarrow>
      (\<exists>st' r'. intake pol now cand st = Inr (st', r') \<and> status r' = ''pending'' \<and>
         records st' = [r']))"
proof -
  have stored: "\<exists>d. d \<in> set (records s) \<and> is_duplicate pol c d \<and>
           duplicate_filter pol t (records s) c = Reject (DuplicateOf (request_id d)) \<and>
           (validation_errors c = [] \<longrightarrow>
              intake pol t c s = Inl (DuplicateRejected (DuplicateOf (request_id d))))"
    if h: "x \<in> set (records s) \<and> within_window pol t x \<and>
        contact_phone x = p_contact_phone c \<and>
        near pol (latitude x, longitude x) (p_latitude c, p_longitude c)" for x s t c
  proof -
    obtain d where d: "d \<in> set (records s)" "is_duplicate pol c d"
      "duplicate_filter pol t (records s) c = Reject (DuplicateOf (request_id d))"
      using duplicate_found [of x "records s" pol t c] h by blast
    then have "validation_errors c = [] \<longrightarrow>
              intake pol t c s = Inl (DuplicateRejected (DuplicateOf (request_id d)))"
      by (simp add: intake_def)
    with d show ?thesis by blast
  qed
  have second: "\<exists>d. intake pol t2 p2 st1 = Inl (DuplicateRejected (DuplicateOf d))"
    if h: "intake pol t1 p1 st = Inr (st1, r1) \<and> t2 \<le> t1 + window pol \<and>
        p_contact_phone p2 = p_contact_phone p1 \<and>
        near pol (p_latitude p1, p_longitude p1) (p_latitude p2, p_longitude p2) \<and>
        validation_errors p2 = []"
  proof -
    have acc: "intake pol t1 p1 st = Inr (st1, r1)"
      using h by (rule conjunct1)
    have r1: "r1 \<in> set (records st1)" "r1 = new_request (next_id st) t1 p1"
      using intake_accepted [OF acc] by (rule conjunct1, rule conjunct2)
    have "within_window pol t2 r1 \<and> contact_phone r1 = p_contact_phone p2 \<and>
          near pol (latitude r1, longitude r1) (p_latitude p2, p_longitude p2)"
      using h by (simp add: r1(2) new_request_def within_window_def)
    then show ?thesis
      using stored [of r1 st1 t2 p2] r1(1) h by blast
  qed
  have empty: "\<exists>st' r'. intake pol now cand st = Inr (st', r') \<and> status r' = ''pending'' \<and>
         records st' = [r']"
    if "records st = [] \<and> validation_errors cand = []"
    using intake_empty_history [of st cand pol now] that by (simp add: new_request_def)
  show ?thesis
  proof (intro conjI impI)
    show "duplicate_filter pol now [] cand = Accept"
      by (rule filter_empty_history)
  qed (erule stored second empty)+
qed

lemma sample_payload_valid: "validation_errors sample_payload = []"
  by (simp add: validation_errors_def sample_payload_def request_types_def urgency_levels_def)

lemma sample_first_accepted:
  "intake sample_policy 100 sample_payload empty_store =
     Inr (\<lparr>records = [new_request 1 100 sample_payload], next_id = 2\<rparr>,
          new_request 1 100 sample_payload)"
  by (simp add: intake_empty_history sample_payload_valid empty_store_def)

theorem duplicate_submission_rejected_witness:
  "intake sample_policy 100 sample_payload empty_store =
     Inr (\<lparr>records = [new_request 1 100 sample_payload], next_id = 2\<rparr>,
          new_request 1 100 sample_payload) \<and>
   200 \<le> 100 + window sample_policy \<and>
   near sample_policy (p_latitude sample_payload, p_longitude sample_payload)
     (p_latitude (sample_payload\<lparr>p_title := ''Food please''\<rparr>),
      p_longitude (sample_payload\<lparr>p_title := ''Food please''\<rparr>)) \<and>
   validation_errors (sample_payload\<lparr>p_title := ''Food please''\<rparr>) = [] \<and>
   (\<exists>d. intake sample_policy 200 (sample_payload\<lparr>p_title := ''Food please''\<rparr>)
          \<lparr>records = [new_request 1 100 sample_payload], next_id = 2\<rparr> =
        Inl (DuplicateRejected (DuplicateOf d))) \<and>
   duplicate_filter sample_policy 100 [] sample_payload = Accept"
proof -
  let ?p2 = "sample_payload\<lparr>p_title := ''Food please''\<rparr>"
  let ?st1 = "\<lparr>records = [new_request 1 100 sample_payload], next_id = 2\<rparr>"
  note inst = duplicate_submission_rejected [of "new_request 1 100 sample_payload" empty_store
      sample_policy 100 sample_payload 100 sample_payload ?st1
      "new_request 1 100 sample_payload" 200 ?p2]
  note second = inst [THEN conjunct2, THEN conjunct1]
  note empty = inst [THEN conjunct2, THEN conjunct2, THEN conjunct1]
  have a: "intake sample_policy 100 sample_payload empty_store =
             Inr (?st1, new_request 1 100 sample_payload)"
    by (rule sample_first_accepted)
  have w: "200 \<le> 100 + window sample_policy"
    by (simp add: sample_policy_def)
  have ph: "p_contact_phone ?p2 = p_contact_phone sample_payload"
    by simp
  have n: "near sample_policy (p_latitude sample_payload, p_longitude sample_payload)
             (p_latitude ?p2, p_longitude ?p2)"
    by (simp add: sample_policy_def)
  have v: "validation_errors ?p2 = []"
    by (simp add: validation_errors_def sample_payload_def request_types_def urgency_levels_def)
  have r: "\<exists>d. intake sample_policy 200 ?p2 ?st1 = Inl (DuplicateRejected (DuplicateOf d))"
    using second a w ph n v by blast
  show ?thesis
    by (intro conjI) (fact a w n v r empty)+
qed


section \<open>Identifiers are unique\<close>

text \<open>
  Every store reached from the empty one holds distinct identifiers, so its listings do
  not depend on the order the records are stored in.
\<close>

lemma store_wf_create:
  assumes "store_wf st" and "create now p st = Inr (st', r)"
  shows "store_wf st'"
proof -
  have r: "r = new_request (next_id st) now p" "records st' = records st @ [r]"
    using create_Inr [OF assms(2)] by simp_all
  have n: "next_id st' = Suc (next_id st)"
    using assms(2) by (auto simp: create_def Let_def split: if_splits)
  have i: "request_id r = next_id st"
    by (simp add: r(1) new_request_def)
  have "request_id r \<notin> set (map request_id (records st))"
    using assms(1) i by (auto simp: store_wf_def list_all_iff)
  moreover have "list_all (\<lambda>x. request_id x < Suc (next_id st)) (records st)"
    using assms(1) by (auto simp: store_wf_def list_all_iff)
  ultimately show ?thesis
    using assms(1) i by (simp add: store_wf_def r(2) n)
qed

lemma list_all_map_keeps:
  assumes "list_all P xs" and "\<And>x. P x \<Longrightarrow> P (g x)"
  shows "list_all P (map g xs)"
  using assms(1) by (induction xs) (simp_all add: assms(2))

lemma store_wf_update:
  assumes "store_wf st" and "\<And>r. request_id (f r) = request_id r"
  shows "store_wf (update_record i f st)"
proof -
  let ?g = "\<lambda>r. if request_id r = i then f r else r"
  have g: "request_id (?g r) = request_id r" for r
    by (simp add: assms(2))
  have c: "request_id \<circ> ?g = request_id"
    by (rule ext) (simp add: assms(2))
  have d: "distinct (map request_id (map ?g (records st)))"
    unfolding map_map c using assms(1) by (simp add: store_wf_def)
  have "list_all (\<lambda>r. request_id r < next_id st) (records st)"
    using assms(1) by (simp add: store_wf_def)
  then have l: "list_all (\<lambda>r. request_id r < next_id st) (map ?g (records st))"
    by (rule list_all_map_keeps) (simp only: g)
  have rec: "records (update_record i f st) = map ?g (records st)"
    and nx: "next_id (update_record i f st) = next_id st"
    by (simp_all add: update_record_def)
  show ?thesis
    unfolding store_wf_def rec nx using d l by blast
qed

lemma store_wf_step:
  assumes "store_wf st" and "step x st = Inr st'"
  shows "store_wf st'"
proof (cases x)
  case (Create now p)
  then obtain r where "create now p st = Inr (st', r)"
    using assms(2) by (auto split: sum.splits)
  then show ?thesis using assms(1) store_wf_create by blast
next
  case (AssignTo i n c now)
  then obtain r where r: "get i st = Inr r"
    using assms(2) by (cases "get i st") (auto simp: assign_def)
  then show ?thesis
    using assms AssignTo by (auto simp: assign_result store_wf_update split: if_splits)
next
  case (Complete i now)
  then obtain r where r: "get i st = Inr r"
    using assms(2) by (cases "get i st") (auto simp: complete_def)
  then show ?thesis
    using assms Complete by (auto simp: complete_result store_wf_update split: if_splits)
qed

lemma store_wf_run: "store_wf st \<Longrightarrow> store_wf (run xs st)"
proof (induction xs arbitrary: st)
  case Nil
  then show ?case by simp
next
  case (Cons x xs)
  show ?case
  proof (cases "step x st")
    case (Inl e)
    then show ?thesis using Cons by simp
  next
    case (Inr st')
    then show ?thesis using Cons store_wf_step [OF Cons.prems Inr] by simp
  qed
qed

lemma run_distinct_ids: "distinct (map request_id (records (run xs empty_store)))"
proof -
  have "store_wf empty_store"
    by (simp add: store_wf_def empty_store_def)
  then have "store_wf (run xs empty_store)"
    by (rule store_wf_run)
  then show ?thesis
    by (simp add: store_wf_def)
qed

lemma listing_reachable:
  assumes "mset rs = mset (records (run xs empty_store))"
  shows "listing m cfg rs = listing m cfg (records (run xs empty_store))"
proof -
  have "distinct (map request_id rs)"
    using assms run_distinct_ids [of xs]
    by (metis mset_map mset_eq_imp_distinct_iff)
  then show ?thesis
    using assms by (rule listing_perm [rotated])
qed

end
